theory Spec2Isabelle
  imports Main "HOL-Library.AList" "HOL-Library.Sublist" "HOL-Library.Char_ord"
    "HOL-Library.List_Lexorder"
begin

section \<open>The plan storage engine of \<^verbatim>\<open>src/storage.ts\<close>\<close>

text \<open>
  A shallow embedding of the class \<^verbatim>\<open>Storage\<close>: the fields of the object, the
  directory tree it works on and the lines the migrator writes to the console are one
  record, every method takes that record and returns it updated, next to the value it
  returns or the error it throws.  Strings are \<^typ>\<open>string\<close>; the characters of a
  JavaScript string beyond Latin-1 are not represented.
\<close>

subsection \<open>Structured record\<close>

text \<open>
  \<^verbatim>\<open>types.ts\<close> is not among the sources; the fields are those the methods of
  \<^verbatim>\<open>storage.ts\<close> read and write.  \<^verbatim>\<open>complexity\<close> is an integer as in the data
  model of the specification (the TypeScript type is \<^verbatim>\<open>number\<close>).  An object used as a
  dictionary is an association list in insertion order, which is the order JavaScript
  enumerates string keys that are not array indices.
\<close>

record Goal =
  goal_id :: string
  goal_description :: string
  goal_createdAt :: string

record Todo =
  todo_id :: string
  title :: string
  description :: string
  complexity :: int
  codeExample :: "string option"
  isComplete :: bool
  createdAt :: string
  updatedAt :: string

record ImplementationPlan =
  goalId :: string
  todos :: "Todo list"
  plan_updatedAt :: string

record StorageData =
  goals :: "(string \<times> Goal) list"
  plans :: "(string \<times> ImplementationPlan) list"

definition emptyData :: StorageData where
  "emptyData = \<lparr>goals = [], plans = []\<rparr>"

subsection \<open>JSON values\<close>

text \<open>
  \<^verbatim>\<open>JSON.stringify\<close> and \<^verbatim>\<open>JSON.parse\<close> belong to the runtime.  They are modelled at
  the level of the value they write and read: a file written by \<^verbatim>\<open>JSON.stringify\<close>
  holds a \<open>json\<close> tree, and \<^verbatim>\<open>JSON.parse\<close> gives that tree back.  A property
  whose value is \<^verbatim>\<open>undefined\<close> is left out by \<^verbatim>\<open>JSON.stringify\<close>.
\<close>

datatype json =
  JNull
  | JBool bool
  | JNum int
  | JStr string
  | JArr "json list"
  | JObj "(string \<times> json) list"

definition toJSON_Goal :: "Goal \<Rightarrow> json" where
  "toJSON_Goal g = JObj [(''id'', JStr (goal_id g)), (''description'', JStr (goal_description g)),
     (''createdAt'', JStr (goal_createdAt g))]"

definition toJSON_Todo :: "Todo \<Rightarrow> json" where
  "toJSON_Todo t = JObj ([(''id'', JStr (todo_id t)), (''title'', JStr (title t)),
       (''description'', JStr (description t)), (''complexity'', JNum (complexity t))]
     @ (case codeExample t of None \<Rightarrow> [] | Some c \<Rightarrow> [(''codeExample'', JStr c)])
     @ [(''isComplete'', JBool (isComplete t)), (''createdAt'', JStr (createdAt t)),
        (''updatedAt'', JStr (updatedAt t))])"

definition toJSON_Plan :: "ImplementationPlan \<Rightarrow> json" where
  "toJSON_Plan p = JObj [(''goalId'', JStr (goalId p)), (''todos'', JArr (map toJSON_Todo (todos p))),
     (''updatedAt'', JStr (plan_updatedAt p))]"

definition toJSON :: "StorageData \<Rightarrow> json" where
  "toJSON d = JObj [(''goals'', JObj (map (\<lambda>(k, g). (k, toJSON_Goal g)) (goals d))),
     (''plans'', JObj (map (\<lambda>(k, p). (k, toJSON_Plan p)) (plans d)))]"

text \<open>
  The assignment \<^verbatim>\<open>this.data = JSON.parse(data)\<close> is an unchecked cast.  \<open>fromJSON\<close>
  is the record a value of the right shape denotes; it is \<open>None\<close> on any other value,
  where the typed methods of the class have no meaning.
\<close>

fun sequence :: "'a option list \<Rightarrow> 'a list option" where
  "sequence [] = Some []"
| "sequence (None # xs) = None"
| "sequence (Some x # xs) = (case sequence xs of None \<Rightarrow> None | Some ys \<Rightarrow> Some (x # ys))"

definition fromJSON_Goal :: "json \<Rightarrow> Goal option" where
  "fromJSON_Goal j = (case j of
     JObj kv \<Rightarrow> (case (map_of kv ''id'', map_of kv ''description'', map_of kv ''createdAt'') of
        (Some (JStr i), Some (JStr d), Some (JStr c)) \<Rightarrow>
          Some \<lparr>goal_id = i, goal_description = d, goal_createdAt = c\<rparr>
      | _ \<Rightarrow> None)
   | _ \<Rightarrow> None)"

definition fromJSON_codeExample :: "json option \<Rightarrow> string option option" where
  "fromJSON_codeExample j = (case j of None \<Rightarrow> Some None | Some (JStr c) \<Rightarrow> Some (Some c)
     | Some _ \<Rightarrow> None)"

definition fromJSON_Todo :: "json \<Rightarrow> Todo option" where
  "fromJSON_Todo j = (case j of
     JObj kv \<Rightarrow> (case (map_of kv ''id'', map_of kv ''title'', map_of kv ''description'',
                      map_of kv ''complexity'', fromJSON_codeExample (map_of kv ''codeExample''),
                      map_of kv ''isComplete'', map_of kv ''createdAt'', map_of kv ''updatedAt'') of
        (Some (JStr i), Some (JStr t), Some (JStr d), Some (JNum c), Some ce, Some (JBool b),
         Some (JStr ca), Some (JStr ua)) \<Rightarrow>
          Some \<lparr>todo_id = i, title = t, description = d, complexity = c, codeExample = ce,
                isComplete = b, createdAt = ca, updatedAt = ua\<rparr>
      | _ \<Rightarrow> None)
   | _ \<Rightarrow> None)"

definition fromJSON_Plan :: "json \<Rightarrow> ImplementationPlan option" where
  "fromJSON_Plan j = (case j of
     JObj kv \<Rightarrow> (case (map_of kv ''goalId'', map_of kv ''todos'', map_of kv ''updatedAt'') of
        (Some (JStr g), Some (JArr ts), Some (JStr u)) \<Rightarrow>
          (case sequence (map fromJSON_Todo ts) of
             None \<Rightarrow> None
           | Some tds \<Rightarrow> Some \<lparr>goalId = g, todos = tds, plan_updatedAt = u\<rparr>)
      | _ \<Rightarrow> None)
   | _ \<Rightarrow> None)"

definition fromJSON_entries :: "(json \<Rightarrow> 'a option) \<Rightarrow> (string \<times> json) list \<Rightarrow> (string \<times> 'a) list option" where
  "fromJSON_entries f kv = sequence (map (\<lambda>(k, v). map_option (Pair k) (f v)) kv)"

definition fromJSON :: "json \<Rightarrow> StorageData option" where
  "fromJSON j = (case j of
     JObj kv \<Rightarrow> (case (map_of kv ''goals'', map_of kv ''plans'') of
        (Some (JObj gs), Some (JObj ps)) \<Rightarrow>
          (case (fromJSON_entries fromJSON_Goal gs, fromJSON_entries fromJSON_Plan ps) of
             (Some gs', Some ps') \<Rightarrow> Some \<lparr>goals = gs', plans = ps'\<rparr>
           | _ \<Rightarrow> None)
      | _ \<Rightarrow> None)
   | _ \<Rightarrow> None)"

subsection \<open>The directory tree\<close>

text \<open>
  A path is the list of its components from the root of the tree.  A file holds the JSON
  text of a value, one of the two derived documents (kept as the arguments it is rendered
  from: the rendering itself is not modelled, and no document is valid JSON), or other
  text.  The calls of \<^verbatim>\<open>fs.promises\<close> fail exactly where the shape of the tree makes
  them fail; faults of the device (permissions, a full disk) are outside the model.
\<close>

type_synonym path = "string list"

datatype content =
  JsonText json
  | PlanMarkdown string path "Goal list" "ImplementationPlan list"
  | TasksMarkdown string path "ImplementationPlan list"
  | OtherText string

datatype node = File content | Dir "(string \<times> node) list"

datatype ioerr = ENOENT | EEXIST | ENOTDIR | EISDIR | ENOTEMPTY | EINVAL

fun lookup :: "node \<Rightarrow> path \<Rightarrow> node option" where
  "lookup n [] = Some n"
| "lookup (File c) (x # p) = None"
| "lookup (Dir es) (x # p) = (case map_of es x of None \<Rightarrow> None | Some c \<Rightarrow> lookup c p)"

text \<open>\<open>put p v n\<close> stores \<open>v\<close> at \<open>p\<close> when the parent of \<open>p\<close> is a directory.\<close>

fun put :: "path \<Rightarrow> node \<Rightarrow> node \<Rightarrow> node" where
  "put [] v n = v"
| "put (x # p) v (File c) = File c"
| "put (x # p) v (Dir es) = (case map_of es x of
     None \<Rightarrow> if p = [] then Dir (AList.update x v es) else Dir es
   | Some c \<Rightarrow> Dir (AList.update x (put p v c) es))"

text \<open>\<open>del p n\<close> removes the entry at \<open>p\<close>, with everything below it.\<close>

fun del :: "path \<Rightarrow> node \<Rightarrow> node" where
  "del [] n = n"
| "del (x # p) (File c) = File c"
| "del (x # p) (Dir es) = (if p = [] then Dir (AList.delete x es)
     else (case map_of es x of None \<Rightarrow> Dir es | Some c \<Rightarrow> Dir (AList.update x (del p c) es)))"

definition is_dir_at :: "node \<Rightarrow> path \<Rightarrow> bool" where
  "is_dir_at d p = (case lookup d p of Some (Dir es) \<Rightarrow> True | _ \<Rightarrow> False)"

definition is_file_at :: "node \<Rightarrow> path \<Rightarrow> bool" where
  "is_file_at d p = (case lookup d p of Some (File c) \<Rightarrow> True | _ \<Rightarrow> False)"

text \<open>Two paths are independent when neither lies at or below the other.\<close>

definition indep :: "path \<Rightarrow> path \<Rightarrow> bool" where
  "indep p q = (\<not> prefix p q \<and> \<not> prefix q p)"

definition fs_stat :: "node \<Rightarrow> path \<Rightarrow> ioerr + node" where
  "fs_stat d p = (case lookup d p of None \<Rightarrow> Inl ENOENT | Some n \<Rightarrow> Inr n)"

text \<open>\<^verbatim>\<open>fs.mkdir(p, { recursive: true })\<close>: creates the missing directories of \<open>p\<close>.\<close>

fun fs_mkdir :: "path \<Rightarrow> node \<Rightarrow> ioerr + node" where
  "fs_mkdir [] (Dir es) = Inr (Dir es)"
| "fs_mkdir [] (File c) = Inl EEXIST"
| "fs_mkdir (x # p) (File c) = Inl ENOTDIR"
| "fs_mkdir (x # p) (Dir es) =
     (case fs_mkdir p (case map_of es x of None \<Rightarrow> Dir [] | Some c \<Rightarrow> c) of
        Inl e \<Rightarrow> Inl e
      | Inr c' \<Rightarrow> Inr (Dir (AList.update x c' es)))"

text \<open>
  \<^verbatim>\<open>fs.rename\<close> is rename(2): the target's parent must be a directory, a file replaces
  a file, a directory replaces an empty directory, nothing moves below itself.
\<close>

definition fs_rename :: "path \<Rightarrow> path \<Rightarrow> node \<Rightarrow> ioerr + node" where
  "fs_rename src dst d = (case lookup d src of
     None \<Rightarrow> Inl ENOENT
   | Some n \<Rightarrow>
       if src = [] \<or> dst = [] then Inl EINVAL
       else if \<not> is_dir_at d (butlast dst) then Inl ENOENT
       else if src = dst then Inr d
       else if prefix src dst then Inl EINVAL
       else (case lookup d dst of
          None \<Rightarrow> Inr (put dst n (del src d))
        | Some (File c) \<Rightarrow> (case n of File c' \<Rightarrow> Inr (put dst n (del src d)) | Dir es' \<Rightarrow> Inl ENOTDIR)
        | Some (Dir es) \<Rightarrow> (case n of File c' \<Rightarrow> Inl EISDIR
            | Dir es' \<Rightarrow> if es = [] then Inr (put dst n (del src d)) else Inl ENOTEMPTY)))"

definition fs_copyFile :: "path \<Rightarrow> path \<Rightarrow> node \<Rightarrow> ioerr + node" where
  "fs_copyFile src dst d = (case lookup d src of
     None \<Rightarrow> Inl ENOENT
   | Some (Dir es) \<Rightarrow> Inl EISDIR
   | Some (File c) \<Rightarrow>
       if dst = [] \<or> \<not> is_dir_at d (butlast dst) then Inl ENOENT
       else if is_dir_at d dst then Inl EISDIR
       else Inr (put dst (File c) d))"

definition fs_writeFile :: "path \<Rightarrow> content \<Rightarrow> node \<Rightarrow> ioerr + node" where
  "fs_writeFile p c d =
     (if p = [] \<or> \<not> is_dir_at d (butlast p) then Inl ENOENT
      else if is_dir_at d p then Inl EISDIR
      else Inr (put p (File c) d))"

definition fs_readFile :: "node \<Rightarrow> path \<Rightarrow> ioerr + content" where
  "fs_readFile d p = (case lookup d p of None \<Rightarrow> Inl ENOENT | Some (Dir es) \<Rightarrow> Inl EISDIR
     | Some (File c) \<Rightarrow> Inr c)"

text \<open>\<^verbatim>\<open>fs.readdir(p, { withFileTypes: true })\<close>: the names with \<^verbatim>\<open>isDirectory()\<close>.\<close>

fun isDirectory :: "node \<Rightarrow> bool" where
  "isDirectory (Dir es) = True"
| "isDirectory (File c) = False"

definition fs_readdir :: "node \<Rightarrow> path \<Rightarrow> ioerr + (string \<times> bool) list" where
  "fs_readdir d p = (case lookup d p of None \<Rightarrow> Inl ENOENT | Some (File c) \<Rightarrow> Inl ENOTDIR
     | Some (Dir es) \<Rightarrow> Inr (map (\<lambda>(n, c). (n, isDirectory c)) es))"

text \<open>A directory of a real file system lists every name once.\<close>

definition uniqueNames :: "node \<Rightarrow> path \<Rightarrow> bool" where
  "uniqueNames d p = (case lookup d p of Some (Dir es) \<Rightarrow> distinct (map fst es) | _ \<Rightarrow> True)"

text \<open>\<^verbatim>\<open>fs.rmdir(p, { recursive: true })\<close>: removes the directory and what it holds.\<close>

definition fs_rmdir :: "path \<Rightarrow> node \<Rightarrow> ioerr + node" where
  "fs_rmdir p d = (case lookup d p of None \<Rightarrow> Inl ENOENT | Some (File c) \<Rightarrow> Inl ENOTDIR
     | Some (Dir es) \<Rightarrow> if p = [] then Inl EINVAL else Inr (del p d))"

subsection \<open>Clock and the strings made from it\<close>

text \<open>
  Every evaluation of \<^verbatim>\<open>Date.now()\<close> or \<^verbatim>\<open>new Date()\<close> is a reading of the clock, in
  milliseconds since the epoch.  A method that reads the clock takes the readings as a
  function \<open>clk\<close>: \<open>clk 0\<close> is its first reading, \<open>clk 1\<close> its second, in the order
  of evaluation.
\<close>

type_synonym clock = "nat \<Rightarrow> int"

definition digit :: "int \<Rightarrow> char" where
  "digit n = char_of (48 + n)"

text \<open>\<^verbatim>\<open>Number.prototype.toString()\<close> on an integer: its decimal digits.\<close>

function digits :: "int \<Rightarrow> string" where
  "digits n = (if n < 10 then [digit n] else digits (n div 10) @ [digit (n mod 10)])"
  by pat_completeness auto
termination
  by (relation "measure nat") auto

declare digits.simps [simp del]

definition toString :: "int \<Rightarrow> string" where
  "toString n = (if n < 0 then CHR ''-'' # digits (- n) else digits n)"

definition pad :: "nat \<Rightarrow> int \<Rightarrow> string" where
  "pad w n = replicate (w - length (digits n)) (CHR ''0'') @ digits n"

text \<open>\<^verbatim>\<open>Date.prototype.toISOString()\<close> of the instant \<open>ms\<close>, in the proleptic Gregorian calendar.\<close>

definition toISOString :: "int \<Rightarrow> string" where
  "toISOString ms =
    (let days = ms div 86400000; r = ms mod 86400000;
         z = days + 719468; era = z div 146097; doe = z mod 146097;
         yoe = (doe - doe div 1460 + doe div 36524 - doe div 146096) div 365;
         doy = doe - (365 * yoe + yoe div 4 - yoe div 100);
         mp = (5 * doy + 2) div 153;
         d = doy - (153 * mp + 2) div 5 + 1;
         m = (if mp < 10 then mp + 3 else mp - 9);
         y = yoe + era * 400 + (if m \<le> 2 then 1 else 0)
     in (if 0 \<le> y \<and> y \<le> 9999 then pad 4 y
         else if y < 0 then CHR ''-'' # pad 6 (- y) else CHR ''+'' # pad 6 y)
        @ ''-'' @ pad 2 m @ ''-'' @ pad 2 d
        @ ''T'' @ pad 2 (r div 3600000) @ '':'' @ pad 2 (r div 60000 mod 60) @ '':''
        @ pad 2 (r div 1000 mod 60) @ ''.'' @ pad 3 (r mod 1000) @ ''Z'')"

subsection \<open>The storage object\<close>

datatype migration_cause = DirCreation ioerr | BackupRequired string ioerr | CopyToMain ioerr

text \<open>
  The class throws \<^verbatim>\<open>Error\<close> objects told apart by their message; one constructor
  stands for each message.  \<open>IOError\<close> is an error of \<^verbatim>\<open>fs.promises\<close> that a method lets
  through.  \<open>IllTypedRecord\<close> marks the edge of the typed model: the record file holds
  JSON that is no structured record, which the source loads without a check.
\<close>

datatype error =
  IOError ioerr
  | InvalidPlanName string
  | PlanAlreadyExists string
  | PlanDoesNotExist string "string list"
  | MigrationFailed migration_cause
  | NoPlanFound string
  | NoTodoFound string
  | IllTypedRecord json

text \<open>
  The fields of the class, the directory tree \<open>disk\<close> and the lines \<open>console\<close> that
  \<^verbatim>\<open>migrateV1ToV2\<close> and \<^verbatim>\<open>rollbackMigration\<close> write with \<^verbatim>\<open>console.error\<close> (the
  diagnostics of the other methods are not recorded).
\<close>

record Storage =
  storagePath :: path
  cursorDir :: path
  planPath :: path
  tasksPath :: path
  data :: StorageData
  currentWorkingDirectory :: path
  currentPlan :: string
  baseStorageDir :: path
  disk :: node
  console :: "string list"

definition console_error :: "string \<Rightarrow> Storage \<Rightarrow> Storage" where
  "console_error line s = s\<lparr>console := console s @ [line]\<rparr>"

text \<open>\<open>s'\<close> is \<open>s\<close> but for the disk and the console.\<close>

definition sameObject :: "Storage \<Rightarrow> Storage \<Rightarrow> bool" where
  "sameObject s s' = (s'\<lparr>disk := disk s, console := console s\<rparr> = s)"

definition ioerr_message :: "ioerr \<Rightarrow> string" where
  "ioerr_message e = (case e of ENOENT \<Rightarrow> ''ENOENT'' | EEXIST \<Rightarrow> ''EEXIST'' | ENOTDIR \<Rightarrow> ''ENOTDIR''
     | EISDIR \<Rightarrow> ''EISDIR'' | ENOTEMPTY \<Rightarrow> ''ENOTEMPTY'' | EINVAL \<Rightarrow> ''EINVAL'')"

definition cause_message :: "migration_cause \<Rightarrow> string" where
  "cause_message c = (case c of
     DirCreation e \<Rightarrow> ioerr_message e
   | BackupRequired n e \<Rightarrow> ''Failed to backup required file '' @ n @ '': '' @ ioerr_message e
   | CopyToMain e \<Rightarrow> ''Failed to copy file to main directory: '' @ ioerr_message e)"

definition path_text :: "path \<Rightarrow> string" where
  "path_text p = concat (map (\<lambda>c. ''/'' @ c) p)"

subsubsection \<open>Plan names\<close>

definition isAlnum :: "char \<Rightarrow> bool" where
  "isAlnum c = ((CHR ''a'' \<le> c \<and> c \<le> CHR ''z'') \<or> (CHR ''A'' \<le> c \<and> c \<le> CHR ''Z'')
     \<or> (CHR ''0'' \<le> c \<and> c \<le> CHR ''9''))"

definition planNameChar :: "char \<Rightarrow> bool" where
  "planNameChar c = (isAlnum c \<or> c = CHR ''-'' \<or> c = CHR ''_'')"

text \<open>\<^verbatim>\<open>/^[a-zA-Z0-9][a-zA-Z0-9\-_]*$/.test(planName)\<close>\<close>

definition validPlanRegex_test :: "string \<Rightarrow> bool" where
  "validPlanRegex_test planName = (case planName of
     [] \<Rightarrow> False
   | c # cs \<Rightarrow> isAlnum c \<and> list_all planNameChar cs)"

text \<open>\<^verbatim>\<open>String.prototype.includes\<close>\<close>

fun str_includes :: "string \<Rightarrow> string \<Rightarrow> bool" where
  "str_includes [] sub = (sub = [])"
| "str_includes (c # cs) sub = (prefix sub (c # cs) \<or> str_includes cs sub)"

definition sanitizePlanName :: "string \<Rightarrow> string" where
  "sanitizePlanName planName =
    (if planName = [] \<or> \<not> validPlanRegex_test planName then ''main''
     else if str_includes planName ''..'' \<or> str_includes planName ''/'' \<or> str_includes planName [CHR 0x5C]
             \<or> str_includes planName [CHR 0x00] then ''main''
     else planName)"

definition updatePaths :: "Storage \<Rightarrow> Storage" where
  "updatePaths s =
    (let safePlanName = sanitizePlanName (currentPlan s);
         s1 = (if safePlanName \<noteq> currentPlan s then s\<lparr>currentPlan := safePlanName\<rparr> else s);
         base = currentWorkingDirectory s1 @ [''.cursor'', ''softwareplan''];
         dir = base @ [currentPlan s1]
     in s1\<lparr>baseStorageDir := base, cursorDir := dir, storagePath := dir @ [''data.json''],
            planPath := dir @ [''plan.md''], tasksPath := dir @ [''tasks.md'']\<rparr>)"

text \<open>The constructor, on the working directory it has detected.\<close>

definition Storage_constructor :: "path \<Rightarrow> node \<Rightarrow> Storage" where
  "Storage_constructor cwd d = (updatePaths
     \<lparr>storagePath = [], cursorDir = [], planPath = [], tasksPath = [], data = emptyData,
      currentWorkingDirectory = cwd, currentPlan = ''main'', baseStorageDir = [], disk = d,
      console = []\<rparr>)\<lparr>data := emptyData\<rparr>"

subsubsection \<open>Legacy migration\<close>

definition isV1Project :: "Storage \<Rightarrow> bool" where
  "isV1Project s = (case fs_stat (disk s) (baseStorageDir s @ [''data.json'']) of
     Inl e \<Rightarrow> False
   | Inr n \<Rightarrow> (case n of File c \<Rightarrow> True | Dir es \<Rightarrow> False))"

text \<open>The body of \<^verbatim>\<open>rollbackMigration\<close>'s loop over \<^verbatim>\<open>backupOperations\<close>.\<close>

fun restoreFiles :: "(path \<times> path) list \<Rightarrow> Storage \<Rightarrow> Storage" where
  "restoreFiles [] s = s"
| "restoreFiles ((from, to) # ops) s = restoreFiles ops
     (case fs_rename to from (disk s) of
        Inr d \<Rightarrow> console_error (''[Storage] Restored: '' @ last from) (s\<lparr>disk := d\<rparr>)
      | Inl e \<Rightarrow> console_error (''[Storage] Failed to restore '' @ last from @ '': '' @ ioerr_message e) s)"

text \<open>
  The outer \<^verbatim>\<open>catch\<close> of \<^verbatim>\<open>rollbackMigration\<close> has nothing to catch: every call that
  can fail stands in a \<^verbatim>\<open>try\<close> of its own.
\<close>

definition rollbackMigration :: "(path \<times> path) list \<Rightarrow> path \<Rightarrow> Storage \<Rightarrow> Storage" where
  "rollbackMigration backupOperations mainPlanDir s =
    (let s1 = console_error ''[Storage] Rolling back migration...'' s;
         s2 = (case fs_rmdir mainPlanDir (disk s1) of Inl e \<Rightarrow> s1 | Inr d \<Rightarrow> s1\<lparr>disk := d\<rparr>);
         s3 = restoreFiles backupOperations s2
     in console_error ''[Storage] Rollback completed'' s3)"

text \<open>The first loop of \<^verbatim>\<open>migrateV1ToV2\<close>, over \<^verbatim>\<open>filesToMigrate\<close> (source, name, required).\<close>

fun backupFiles :: "path \<Rightarrow> (path \<times> string \<times> bool) list \<Rightarrow> (path \<times> path) list \<Rightarrow> Storage
    \<Rightarrow> (migration_cause + (path \<times> path) list) \<times> Storage" where
  "backupFiles backupDir [] backupOperations s = (Inr backupOperations, s)"
| "backupFiles backupDir ((source, name, required) # files) backupOperations s =
    (let backupPath = backupDir @ [name] in
     case (case fs_stat (disk s) source of
             Inl e \<Rightarrow> Inl e
           | Inr n \<Rightarrow> fs_rename source backupPath (disk s)) of
       Inr d \<Rightarrow> backupFiles backupDir files (backupOperations @ [(source, backupPath)])
                 (console_error (''[Storage] Backed up: '' @ name) (s\<lparr>disk := d\<rparr>))
     | Inl e \<Rightarrow>
         if required then (Inl (BackupRequired name e), s)
         else backupFiles backupDir files backupOperations
                (console_error (''[Storage] Optional file '' @ name @ '' not found, skipping'') s))"

text \<open>The second loop, over \<^verbatim>\<open>backupOperations\<close>; \<open>all\<close> is the whole list, for the rollback.\<close>

fun copyFiles :: "path \<Rightarrow> (path \<times> path) list \<Rightarrow> (path \<times> path) list \<Rightarrow> Storage
    \<Rightarrow> (migration_cause + unit) \<times> Storage" where
  "copyFiles mainPlanDir all [] s = (Inr (), s)"
| "copyFiles mainPlanDir all ((from, to) # ops) s =
    (let fileName = last to; targetPath = mainPlanDir @ [fileName] in
     case fs_copyFile to targetPath (disk s) of
       Inr d \<Rightarrow> copyFiles mainPlanDir all ops
                 (console_error (''[Storage] Copied: '' @ fileName @ '' to main plan'') (s\<lparr>disk := d\<rparr>))
     | Inl e \<Rightarrow> (Inl (CopyToMain e),
         rollbackMigration all mainPlanDir
           (console_error (''[Storage] Failed to copy '' @ last to @ '', attempting rollback...'') s)))"

definition migrationFailed :: "migration_cause \<Rightarrow> Storage \<Rightarrow> (error + unit) \<times> Storage" where
  "migrationFailed c s =
     (Inl (MigrationFailed c), console_error (''[Storage] Migration failed: '' @ cause_message c) s)"

definition migrateV1ToV2 :: "Storage \<Rightarrow> (error + unit) \<times> Storage" where
  "migrateV1ToV2 s =
    (let s0 = console_error ''[Storage] Migrating V1.0 data to V2.0 format...'' s;
         v1DataPath = baseStorageDir s @ [''data.json''];
         v1PlanPath = baseStorageDir s @ [''plan.md''];
         v1TasksPath = baseStorageDir s @ [''tasks.md''];
         backupDir = baseStorageDir s @ [''v1-backup''];
         mainPlanDir = baseStorageDir s @ [''main''];
         filesToMigrate = [(v1DataPath, ''data.json'', True), (v1PlanPath, ''plan.md'', False),
                           (v1TasksPath, ''tasks.md'', False)]
     in case fs_mkdir backupDir (disk s0) of
          Inl e \<Rightarrow> migrationFailed (DirCreation e) s0
        | Inr d1 \<Rightarrow>
           (case fs_mkdir mainPlanDir d1 of
              Inl e \<Rightarrow> migrationFailed (DirCreation e) (s0\<lparr>disk := d1\<rparr>)
            | Inr d2 \<Rightarrow>
               (case backupFiles backupDir filesToMigrate []
                       (console_error ''[Storage] Step 1: Backing up original files...'' (s0\<lparr>disk := d2\<rparr>)) of
                  (Inl c, s3) \<Rightarrow> migrationFailed c s3
                | (Inr backupOperations, s3) \<Rightarrow>
                   (case copyFiles mainPlanDir backupOperations backupOperations
                           (console_error (''[Storage] Step 2: Copying files to '' @ [CHR 0x27] @ ''main''
                              @ [CHR 0x27] @ '' plan directory...'') s3) of
                      (Inl c, s4) \<Rightarrow> migrationFailed c s4
                    | (Inr u, s4) \<Rightarrow>
                       (Inr (),
                        console_error (''[Storage] V1.0 backup saved to: '' @ path_text backupDir)
                          (console_error (''[Storage] V1.0 data successfully migrated to '' @ [CHR 0x27]
                             @ ''main'' @ [CHR 0x27] @ '' plan'') s4))))))"

subsubsection \<open>Plans\<close>

definition listPlans :: "Storage \<Rightarrow> string list" where
  "listPlans s = (case fs_readdir (disk s) (baseStorageDir s) of
     Inl e \<Rightarrow> []
   | Inr entries \<Rightarrow>
       sort (map fst (filter (\<lambda>(name, isDirectory). isDirectory \<and> name \<noteq> ''v1-backup'') entries)))"

subsubsection \<open>Loading and saving\<close>

definition generateMarkdownFiles :: "Storage \<Rightarrow> (error + unit) \<times> Storage" where
  "generateMarkdownFiles s =
    (let gs = map snd (goals (data s)); ps = map snd (plans (data s)) in
     if gs = [] then (Inr (), s)
     else case fs_writeFile (planPath s)
                 (PlanMarkdown (currentPlan s) (currentWorkingDirectory s) gs ps) (disk s) of
            Inl e \<Rightarrow> (Inl (IOError e), s)
          | Inr d1 \<Rightarrow>
             (case fs_writeFile (tasksPath s)
                     (TasksMarkdown (currentPlan s) (currentWorkingDirectory s) ps) d1 of
                Inl e \<Rightarrow> (Inl (IOError e), s\<lparr>disk := d1\<rparr>)
              | Inr d2 \<Rightarrow> (Inr (), s\<lparr>disk := d2\<rparr>)))"

definition save :: "Storage \<Rightarrow> (error + unit) \<times> Storage" where
  "save s = (case fs_writeFile (storagePath s) (JsonText (toJSON (data s))) (disk s) of
     Inl e \<Rightarrow> (Inl (IOError e), s)
   | Inr d \<Rightarrow> generateMarkdownFiles (s\<lparr>disk := d\<rparr>))"

definition initialize :: "Storage \<Rightarrow> (error + unit) \<times> Storage" where
  "initialize s0 =
    (let s = s0\<lparr>data := emptyData\<rparr> in
     case (if isV1Project s then migrateV1ToV2 s else (Inr (), s)) of
       (Inl e, s1) \<Rightarrow> (Inl e, s1)
     | (Inr u, s1) \<Rightarrow>
        (case fs_mkdir (cursorDir s1) (disk s1) of
           Inl e \<Rightarrow> (Inl (IOError e), s1)
         | Inr d \<Rightarrow>
            (let s2 = s1\<lparr>disk := d\<rparr> in
             case fs_readFile (disk s2) (storagePath s2) of
               Inr (JsonText j) \<Rightarrow>
                 (case fromJSON j of
                    Some r \<Rightarrow> (Inr (), s2\<lparr>data := r\<rparr>)
                  | None \<Rightarrow> (Inl (IllTypedRecord j), s2))
             | _ \<Rightarrow> save s2)))"

text \<open>
  The \<^verbatim>\<open>catch\<close> around \<^verbatim>\<open>fs.stat\<close> rethrows the error whose message contains
  \<^verbatim>\<open>already exists\<close>, which is the one thrown after a \<^verbatim>\<open>stat\<close> that succeeds.  (The
  message of a \<^verbatim>\<open>stat\<close> that fails quotes the path; a working directory with these words
  in its name is left aside.)  An empty \<^verbatim>\<open>goal\<close> counts as no goal.
\<close>

definition createNewPlan :: "clock \<Rightarrow> string \<Rightarrow> string option \<Rightarrow> Storage \<Rightarrow> (error + unit) \<times> Storage" where
  "createNewPlan clk planName goal s =
    (let sanitizedName = sanitizePlanName planName in
     if sanitizedName \<noteq> planName then (Inl (InvalidPlanName planName), s)
     else
       (let planDir = baseStorageDir s @ [planName] in
        case fs_stat (disk s) planDir of
          Inr n \<Rightarrow> (Inl (PlanAlreadyExists planName), s)
        | Inl e0 \<Rightarrow>
           (case fs_mkdir planDir (disk s) of
              Inl e \<Rightarrow> (Inl (IOError e), s)
            | Inr d1 \<Rightarrow>
               (let record = (case goal of
                        None \<Rightarrow> emptyData
                      | Some g \<Rightarrow>
                          if g = [] then emptyData
                          else (let goalObj = \<lparr>goal_id = toString (clk 0), goal_description = g,
                                              goal_createdAt = toISOString (clk 1)\<rparr>;
                                    plan = \<lparr>goalId = goal_id goalObj, todos = [],
                                            plan_updatedAt = toISOString (clk 2)\<rparr>
                                in \<lparr>goals = [(goal_id goalObj, goalObj)],
                                    plans = [(goal_id goalObj, plan)]\<rparr>))
                in case fs_writeFile (planDir @ [''data.json'']) (JsonText (toJSON record)) d1 of
                     Inl e \<Rightarrow> (Inl (IOError e), s\<lparr>disk := d1\<rparr>)
                   | Inr d2 \<Rightarrow> (Inr (), s\<lparr>disk := d2\<rparr>)))))"

definition setActivePlan :: "string \<Rightarrow> Storage \<Rightarrow> (error + unit) \<times> Storage" where
  "setActivePlan planName s =
    (let sanitizedName = sanitizePlanName planName in
     if sanitizedName \<noteq> planName then (Inl (InvalidPlanName planName), s)
     else
       (let plans = listPlans s in
        if \<not> List.member plans planName then (Inl (PlanDoesNotExist planName plans), s)
        else initialize (updatePaths (s\<lparr>currentPlan := planName\<rparr>))))"

subsubsection \<open>Goals, plans and todos\<close>

definition createGoal :: "clock \<Rightarrow> string \<Rightarrow> Storage \<Rightarrow> (error + Goal) \<times> Storage" where
  "createGoal clk descr s =
    (let goal = \<lparr>goal_id = toString (clk 0), goal_description = descr,
                 goal_createdAt = toISOString (clk 1)\<rparr>;
         s1 = s\<lparr>data := (data s)\<lparr>goals := AList.update (goal_id goal) goal (goals (data s))\<rparr>\<rparr>
     in case save s1 of (Inl e, s2) \<Rightarrow> (Inl e, s2) | (Inr u, s2) \<Rightarrow> (Inr goal, s2))"

definition getGoal :: "string \<Rightarrow> Storage \<Rightarrow> Goal option" where
  "getGoal i s = map_of (goals (data s)) i"

definition getAllGoals :: "Storage \<Rightarrow> Goal list" where
  "getAllGoals s = map snd (goals (data s))"

definition createPlan :: "clock \<Rightarrow> string \<Rightarrow> Storage \<Rightarrow> (error + ImplementationPlan) \<times> Storage" where
  "createPlan clk gid s =
    (let plan = \<lparr>goalId = gid, todos = [], plan_updatedAt = toISOString (clk 0)\<rparr>;
         s1 = s\<lparr>data := (data s)\<lparr>plans := AList.update gid plan (plans (data s))\<rparr>\<rparr>
     in case save s1 of (Inl e, s2) \<Rightarrow> (Inl e, s2) | (Inr u, s2) \<Rightarrow> (Inr plan, s2))"

definition getPlan :: "string \<Rightarrow> Storage \<Rightarrow> ImplementationPlan option" where
  "getPlan gid s = map_of (plans (data s)) gid"

text \<open>
  \<^verbatim>\<open>plan\<close> is the object stored under \<^verbatim>\<open>goalId\<close>: a write to it is a write to that
  entry of \<^verbatim>\<open>this.data.plans\<close>.
\<close>

definition setPlan :: "string \<Rightarrow> ImplementationPlan \<Rightarrow> Storage \<Rightarrow> Storage" where
  "setPlan gid plan s = s\<lparr>data := (data s)\<lparr>plans := AList.update gid plan (plans (data s))\<rparr>\<rparr>"

definition addTodo :: "clock \<Rightarrow> string \<Rightarrow> string \<Rightarrow> string \<Rightarrow> int \<Rightarrow> string option \<Rightarrow> Storage
    \<Rightarrow> (error + Todo) \<times> Storage" where
  "addTodo clk gid ttl descr cplx example s =
    (case getPlan gid s of
       None \<Rightarrow> (Inl (NoPlanFound gid), s)
     | Some plan \<Rightarrow>
        (let todo = \<lparr>todo_id = toString (clk 0), title = ttl, description = descr,
                     complexity = cplx, codeExample = example, isComplete = False,
                     createdAt = toISOString (clk 1), updatedAt = toISOString (clk 2)\<rparr>;
             plan1 = plan\<lparr>todos := todos plan @ [todo]\<rparr>;
             plan2 = plan1\<lparr>plan_updatedAt := toISOString (clk 3)\<rparr>
         in case save (setPlan gid plan2 s) of
              (Inl e, s') \<Rightarrow> (Inl e, s')
            | (Inr u, s') \<Rightarrow> (Inr todo, s')))"

definition removeTodo :: "clock \<Rightarrow> string \<Rightarrow> string \<Rightarrow> Storage \<Rightarrow> (error + unit) \<times> Storage" where
  "removeTodo clk gid todoId s =
    (case getPlan gid s of
       None \<Rightarrow> (Inl (NoPlanFound gid), s)
     | Some plan \<Rightarrow>
        (let plan1 = plan\<lparr>todos := filter (\<lambda>todo. todo_id todo \<noteq> todoId) (todos plan)\<rparr>;
             plan2 = plan1\<lparr>plan_updatedAt := toISOString (clk 0)\<rparr>
         in save (setPlan gid plan2 s)))"

text \<open>\<^verbatim>\<open>Array.prototype.find\<close> and the write to the element it returns.\<close>

fun updateFirst :: "('a \<Rightarrow> bool) \<Rightarrow> ('a \<Rightarrow> 'a) \<Rightarrow> 'a list \<Rightarrow> 'a list" where
  "updateFirst P f [] = []"
| "updateFirst P f (x # xs) = (if P x then f x # xs else x # updateFirst P f xs)"

definition updateTodoStatus :: "clock \<Rightarrow> string \<Rightarrow> string \<Rightarrow> bool \<Rightarrow> Storage
    \<Rightarrow> (error + Todo) \<times> Storage" where
  "updateTodoStatus clk gid todoId done s =
    (case getPlan gid s of
       None \<Rightarrow> (Inl (NoPlanFound gid), s)
     | Some plan \<Rightarrow>
        (case find (\<lambda>t. todo_id t = todoId) (todos plan) of
           None \<Rightarrow> (Inl (NoTodoFound todoId), s)
         | Some todo \<Rightarrow>
            (let todo' = todo\<lparr>isComplete := done, updatedAt := toISOString (clk 0)\<rparr>;
                 plan1 = plan\<lparr>todos := updateFirst (\<lambda>t. todo_id t = todoId) (\<lambda>t. todo') (todos plan)\<rparr>;
                 plan2 = plan1\<lparr>plan_updatedAt := toISOString (clk 1)\<rparr>
             in case save (setPlan gid plan2 s) of
                  (Inl e, s') \<Rightarrow> (Inl e, s')
                | (Inr u, s') \<Rightarrow> (Inr todo', s'))))"

definition getTodos :: "string \<Rightarrow> Storage \<Rightarrow> Todo list" where
  "getTodos gid s = (case getPlan gid s of None \<Rightarrow> [] | Some plan \<Rightarrow> todos plan)"

subsection \<open>Inputs of the examples\<close>

text \<open>
  A clock that stands still during a call, and one that passes a millisecond boundary
  after the first \<open>k\<close> readings of the call.
\<close>

definition frozenClock :: "int \<Rightarrow> clock" where
  "frozenClock t n = t"

definition stepClock :: "int \<Rightarrow> nat \<Rightarrow> clock" where
  "stepClock t k n = (if n < k then t else t + 1)"

definition exampleGoal :: Goal where
  "exampleGoal = \<lparr>goal_id = ''1700000000000'', goal_description = ''build widget'',
     goal_createdAt = ''2023-11-14T22:13:20.000Z''\<rparr>"

definition examplePlan :: ImplementationPlan where
  "examplePlan = \<lparr>goalId = ''1700000000000'', todos = [],
     plan_updatedAt = ''2023-11-14T22:13:20.000Z''\<rparr>"

definition exampleData :: StorageData where
  "exampleData = \<lparr>goals = [(''1700000000000'', exampleGoal)],
     plans = [(''1700000000000'', examplePlan)]\<rparr>"

text \<open>A working directory \<^verbatim>\<open>/proj\<close> with the given entries in \<^verbatim>\<open>.cursor/softwareplan\<close>.\<close>

definition projectTree :: "(string \<times> node) list \<Rightarrow> node" where
  "projectTree entries = Dir [(''proj'', Dir [(''.cursor'', Dir [(''softwareplan'', Dir entries)])])]"

definition exampleStorage :: Storage where
  "exampleStorage =
    (Storage_constructor [''proj'']
       (projectTree [(''main'', Dir [(''data.json'', File (JsonText (toJSON exampleData)))])]))
     \<lparr>data := exampleData\<rparr>"

definition otherData :: StorageData where
  "otherData =
    \<lparr>goals = [(''1700000500000'', \<lparr>goal_id = ''1700000500000'', goal_description = ''ship feature x'',
                goal_createdAt = ''2023-11-14T22:21:40.000Z''\<rparr>)],
     plans = [(''1700000500000'', \<lparr>goalId = ''1700000500000'',
                todos = [\<lparr>todo_id = ''1700000500100'', title = ''draft'', description = ''write the draft'',
                          complexity = 4, codeExample = Some ''x()'', isComplete = True,
                          createdAt = ''2023-11-14T22:21:40.100Z'',
                          updatedAt = ''2023-11-14T22:21:40.100Z''\<rparr>],
                plan_updatedAt = ''2023-11-14T22:21:40.100Z''\<rparr>)]\<rparr>"

text \<open>Two plans, a backup directory and a file in the namespace root; \<^verbatim>\<open>main\<close> is active.\<close>

definition twoPlansStorage :: Storage where
  "twoPlansStorage =
    (Storage_constructor [''proj'']
       (projectTree [(''main'', Dir [(''data.json'', File (JsonText (toJSON exampleData)))]),
                     (''v1-backup'', Dir []),
                     (''notes.txt'', File (OtherText ''x'')),
                     (''feat-x'', Dir [(''data.json'', File (JsonText (toJSON otherData)))])]))
     \<lparr>data := exampleData\<rparr>"

text \<open>A legacy layout: the record file and the plan overview directly in the namespace root.\<close>

definition legacyStorage :: Storage where
  "legacyStorage = Storage_constructor [''proj'']
     (projectTree [(''data.json'', File (JsonText (toJSON exampleData))),
                   (''plan.md'', File (OtherText ''# plan''))])"



section \<open>Properties\<close>

subsection \<open>Paths and the calls of the file system\<close>

lemma indep_Cons: "indep (x # p) (y # q) = (x \<noteq> y \<or> indep p q)"
  by (auto simp: indep_def)

lemma indep_Nil [simp]: "\<not> indep [] q" "\<not> indep p []"
  by (auto simp: indep_def)

lemma indep_sym: "indep p q \<Longrightarrow> indep q p"
  by (auto simp: indep_def)

lemma indep_append [simp]: "indep (b @ p) (b @ q) = indep p q"
  by (auto simp: indep_def)

lemma lookup_append:
  "lookup n (p @ q) = (case lookup n p of None \<Rightarrow> None | Some m \<Rightarrow> lookup m q)"
proof (induction p arbitrary: n)
  case Nil
  then show ?case by simp
next
  case (Cons x p)
  then show ?case by (cases n) (auto split: option.splits)
qed

lemma put_frame: "indep p q \<Longrightarrow> lookup (put p v n) q = lookup n q"
proof (induction p arbitrary: q n)
  case Nil
  then show ?case by simp
next
  case (Cons x p)
  obtain y q' where q: "q = y # q'" using Cons.prems by (cases q) auto
  show ?case
  proof (cases n)
    case (File c)
    then show ?thesis by (simp add: q)
  next
    case (Dir es)
    show ?thesis
    proof (cases "x = y")
      case True
      then have "indep p q'" using Cons.prems q by (simp add: indep_Cons)
      then show ?thesis using Cons.IH[of q'] Dir q True
        by (auto simp: update_conv' split: option.splits)
    next
      case False
      then show ?thesis using Dir q
        by (auto simp: update_conv' split: option.splits)
    qed
  qed
qed

lemma del_frame: "indep p q \<Longrightarrow> lookup (del p n) q = lookup n q"
proof (induction p arbitrary: q n)
  case Nil
  then show ?case by simp
next
  case (Cons x p)
  obtain y q' where q: "q = y # q'" using Cons.prems by (cases q) auto
  show ?case
  proof (cases n)
    case (File c)
    then show ?thesis by (simp add: q)
  next
    case (Dir es)
    show ?thesis
    proof (cases "x = y")
      case True
      then have "indep p q'" using Cons.prems q by (simp add: indep_Cons)
      then show ?thesis using Cons.IH[of q'] Dir q True
        by (auto simp: update_conv' delete_conv' split: option.splits)
    next
      case False
      then show ?thesis using Dir q
        by (auto simp: update_conv' delete_conv' split: option.splits)
    qed
  qed
qed

lemma is_dir_at_Nil: "is_dir_at n [] = (\<exists>es. n = Dir es)"
  by (cases n) (auto simp: is_dir_at_def)

lemma is_dir_at_Cons:
  "is_dir_at n (x # p) = (\<exists>es c. n = Dir es \<and> map_of es x = Some c \<and> is_dir_at c p)"
  by (cases n) (auto simp: is_dir_at_def split: option.splits)

lemma put_same: "p \<noteq> [] \<Longrightarrow> is_dir_at n (butlast p) \<Longrightarrow> lookup (put p v n) p = Some v"
proof (induction p arbitrary: n)
  case Nil
  then show ?case by simp
next
  case (Cons x p)
  show ?case
  proof (cases "p = []")
    case True
    then show ?thesis using Cons.prems
      by (auto simp: is_dir_at_Nil update_conv' split: option.splits)
  next
    case False
    then show ?thesis using Cons
      by (auto simp: is_dir_at_Cons update_conv' split: option.splits)
  qed
qed

lemma del_same: "p \<noteq> [] \<Longrightarrow> lookup (del p n) p = None"
proof (induction p arbitrary: n)
  case Nil
  then show ?case by simp
next
  case (Cons x p)
  then show ?case
    by (cases n) (auto simp: update_conv' delete_conv' split: option.splits)
qed

lemma put_keeps_dir: "is_dir_at n q \<Longrightarrow> \<not> prefix p q \<Longrightarrow> is_dir_at (put p v n) q"
proof (induction p arbitrary: q n)
  case Nil
  then show ?case by simp
next
  case (Cons x p)
  show ?case
  proof (cases q)
    case Nil
    then show ?thesis using Cons.prems
      by (auto simp: is_dir_at_Nil split: option.splits)
  next
    case (Cons y q')
    then show ?thesis using Cons.prems Cons.IH[of _ q']
      by (auto simp: is_dir_at_Cons update_conv' split: option.splits)
  qed
qed

lemma del_keeps_dir: "is_dir_at n q \<Longrightarrow> \<not> prefix p q \<Longrightarrow> is_dir_at (del p n) q"
proof (induction p arbitrary: q n)
  case Nil
  then show ?case by simp
next
  case (Cons x p)
  show ?case
  proof (cases q)
    case Nil
    then show ?thesis using Cons.prems
      by (auto simp: is_dir_at_Nil split: option.splits)
  next
    case (Cons y q')
    then show ?thesis using Cons.prems Cons.IH[of _ q']
      by (auto simp: is_dir_at_Cons update_conv' delete_conv' split: option.splits)
  qed
qed

lemma mkdir_existing: "is_dir_at d p \<Longrightarrow> fs_mkdir p d = Inr d"
proof (induction p arbitrary: d)
  case Nil
  then show ?case by (auto simp: is_dir_at_Nil)
next
  case (Cons x p)
  then show ?case by (auto simp: is_dir_at_Cons update_triv)
qed

lemma mkdir_is_dir: "fs_mkdir p d = Inr d' \<Longrightarrow> is_dir_at d' p"
proof (induction p arbitrary: d d')
  case Nil
  then show ?case by (cases d) (auto simp: is_dir_at_Nil)
next
  case (Cons x p)
  then show ?case
    by (cases d) (auto simp: is_dir_at_Cons update_conv' split: sum.splits option.splits)
qed

lemma mkdir_frame: "fs_mkdir p d = Inr d' \<Longrightarrow> indep p q \<Longrightarrow> lookup d' q = lookup d q"
proof (induction p arbitrary: d d' q)
  case Nil
  then show ?case by simp
next
  case (Cons x p)
  obtain y q' where q: "q = y # q'" using Cons.prems by (cases q) auto
  obtain es where d: "d = Dir es" using Cons.prems by (cases d) auto
  obtain c' where c': "fs_mkdir p (case map_of es x of None \<Rightarrow> Dir [] | Some c \<Rightarrow> c) = Inr c'"
      and d': "d' = Dir (AList.update x c' es)"
    using Cons.prems d by (auto split: sum.splits)
  show ?case
  proof (cases "x = y")
    case True
    then have i: "indep p q'" using Cons.prems q by (simp add: indep_Cons)
    from Cons.IH[OF c' i] i show ?thesis using d d' q True
      by (cases q') (auto simp: update_conv' split: option.splits)
  next
    case False
    then show ?thesis using d d' q by (auto simp: update_conv')
  qed
qed

lemma mkdir_keeps_dir: "fs_mkdir p d = Inr d' \<Longrightarrow> is_dir_at d q \<Longrightarrow> is_dir_at d' q"
proof (induction p arbitrary: d d' q)
  case Nil
  then show ?case by (cases d) auto
next
  case (Cons x p)
  obtain es where d: "d = Dir es" using Cons.prems by (cases d) auto
  obtain c' where c': "fs_mkdir p (case map_of es x of None \<Rightarrow> Dir [] | Some c \<Rightarrow> c) = Inr c'"
      and d': "d' = Dir (AList.update x c' es)"
    using Cons.prems d by (auto split: sum.splits)
  show ?case
  proof (cases q)
    case Nil
    then show ?thesis using d' by (simp add: is_dir_at_Nil)
  next
    case (Cons y q')
    then show ?thesis using Cons.prems(2) d d' Cons.IH[OF c', of q']
      by (auto simp: is_dir_at_Cons update_conv' split: option.splits)
  qed
qed

subsection \<open>Plan names\<close>

lemma str_includes_set: "str_includes s sub \<Longrightarrow> set sub \<subseteq> set s"
proof (induction s)
  case Nil
  then show ?case by simp
next
  case (Cons c cs)
  from Cons.prems have "prefix sub (c # cs) \<or> str_includes cs sub" by simp
  then show ?case
  proof
    assume "prefix sub (c # cs)"
    then show ?thesis by (rule set_mono_prefix)
  next
    assume "str_includes cs sub"
    from Cons.IH[OF this] show ?thesis by auto
  qed
qed

lemma valid_chars: "validPlanRegex_test s \<Longrightarrow> c \<in> set s \<Longrightarrow> planNameChar c"
  by (cases s) (auto simp: validPlanRegex_test_def list_all_iff planNameChar_def)

lemma unsafe_chars:
  "\<not> planNameChar (CHR ''.'')" "\<not> planNameChar (CHR ''/'')"
  "\<not> planNameChar (CHR 0x5C)" "\<not> planNameChar (CHR 0x00)"
  by (simp_all add: planNameChar_def isAlnum_def less_eq_char_def)

lemma main_chars: "c \<in> set ''main'' \<Longrightarrow> planNameChar c"
  by (auto simp: planNameChar_def isAlnum_def less_eq_char_def)

lemma unsafe_name_has_char:
  assumes "str_includes planName ''..'' \<or> str_includes planName ''/''
    \<or> str_includes planName [CHR 0x5C] \<or> str_includes planName [CHR 0x00]"
  shows "\<exists>c \<in> set planName. \<not> planNameChar c"
proof -
  from assms consider "str_includes planName ''..''" | "str_includes planName ''/''"
    | "str_includes planName [CHR 0x5C]" | "str_includes planName [CHR 0x00]" by blast
  then show ?thesis
  proof cases
    case 1
    from str_includes_set[OF this] have "CHR ''.'' \<in> set planName" by simp
    then show ?thesis using unsafe_chars(1) by blast
  next
    case 2
    from str_includes_set[OF this] have "CHR ''/'' \<in> set planName" by simp
    then show ?thesis using unsafe_chars(2) by blast
  next
    case 3
    from str_includes_set[OF this] have "CHR 0x5C \<in> set planName" by simp
    then show ?thesis using unsafe_chars(3) by blast
  next
    case 4
    from str_includes_set[OF this] have "CHR 0x00 \<in> set planName" by simp
    then show ?thesis using unsafe_chars(4) by blast
  qed
qed

lemma unsafe_name_sanitized:
  assumes "str_includes planName ''..'' \<or> str_includes planName ''/''
    \<or> str_includes planName [CHR 0x5C] \<or> str_includes planName [CHR 0x00]"
  shows "sanitizePlanName planName = ''main'' \<and> planName \<noteq> ''main''"
proof -
  from unsafe_name_has_char[OF assms] obtain c where c: "c \<in> set planName" "\<not> planNameChar c"
    by blast
  then have "\<not> validPlanRegex_test planName" using valid_chars by blast
  then have 1: "sanitizePlanName planName = ''main''" by (simp add: sanitizePlanName_def)
  have 2: "planName \<noteq> ''main''" using c main_chars by blast
  from 1 2 show ?thesis by simp
qed

text \<open>
  Claim C2.  A plan name that contains \<^verbatim>\<open>..\<close>, \<^verbatim>\<open>/\<close>, a backslash or a null character
  is refused by \<^verbatim>\<open>createNewPlan\<close> and by \<^verbatim>\<open>setActivePlan\<close> with the invalid-name
  error, before either touches the object or the disk; \<^verbatim>\<open>sanitizePlanName\<close> maps it to
  \<^verbatim>\<open>main\<close>, and so does \<^verbatim>\<open>updatePaths\<close> when it finds such a name in \<^verbatim>\<open>currentPlan\<close>.
\<close>

theorem unsafe_plan_name_rejected:
  assumes "str_includes planName ''..'' \<or> str_includes planName ''/''
    \<or> str_includes planName [CHR 0x5C] \<or> str_includes planName [CHR 0x00]"
  shows "createNewPlan clk planName goal s = (Inl (InvalidPlanName planName), s)
    \<and> setActivePlan planName s = (Inl (InvalidPlanName planName), s)
    \<and> sanitizePlanName planName = ''main''
    \<and> currentPlan (updatePaths (s\<lparr>currentPlan := planName\<rparr>)) = ''main''"
proof -
  from unsafe_name_sanitized[OF assms]
  have m: "sanitizePlanName planName = ''main''" and n: "planName \<noteq> ''main''" by simp_all
  have 1: "createNewPlan clk planName goal s = (Inl (InvalidPlanName planName), s)"
    using m n by (simp add: createNewPlan_def)
  have 2: "setActivePlan planName s = (Inl (InvalidPlanName planName), s)"
    using m n by (simp add: setActivePlan_def)
  have 3: "currentPlan (updatePaths (s\<lparr>currentPlan := planName\<rparr>)) = ''main''"
    using m n by (simp add: updatePaths_def Let_def)
  from 1 2 3 m show ?thesis by simp
qed


theorem unsafe_plan_name_rejected_witness:
  "createNewPlan (\<lambda>n. 0) ''a/../b'' None (Storage_constructor [''proj''] (Dir []))
      = (Inl (InvalidPlanName ''a/../b''), Storage_constructor [''proj''] (Dir []))
    \<and> setActivePlan ''a/../b'' (Storage_constructor [''proj''] (Dir []))
      = (Inl (InvalidPlanName ''a/../b''), Storage_constructor [''proj''] (Dir []))
    \<and> sanitizePlanName ''a/../b'' = ''main''
    \<and> currentPlan (updatePaths ((Storage_constructor [''proj''] (Dir []))\<lparr>currentPlan := ''a/../b''\<rparr>)) = ''main''"
proof -
  have h: "str_includes ''a/../b'' ''..'' \<or> str_includes ''a/../b'' ''/''
    \<or> str_includes ''a/../b'' [CHR 0x5C] \<or> str_includes ''a/../b'' [CHR 0x00]"
    by code_simp
  show ?thesis by (rule unsafe_plan_name_rejected[OF h])
qed

subsection \<open>The record file\<close>

lemma sequence_map_Some: "sequence (map Some xs) = Some xs"
  by (induction xs) auto

lemma sequence_map_inverse:
  assumes "\<And>x. f (g x) = Some x"
  shows "sequence (map (f \<circ> g) xs) = Some xs"
  using assms by (induction xs) auto

lemma fromJSON_toJSON_Goal: "fromJSON_Goal (toJSON_Goal g) = Some g"
  by (simp add: fromJSON_Goal_def toJSON_Goal_def)

lemma fromJSON_toJSON_Todo: "fromJSON_Todo (toJSON_Todo t) = Some t"
  by (cases "codeExample t")
    (simp_all add: fromJSON_Todo_def toJSON_Todo_def fromJSON_codeExample_def)

lemma fromJSON_toJSON_Plan: "fromJSON_Plan (toJSON_Plan p) = Some p"
proof -
  have "sequence (map fromJSON_Todo (map toJSON_Todo (todos p))) = Some (todos p)"
    using sequence_map_inverse[of fromJSON_Todo toJSON_Todo "todos p"]
    by (simp add: fromJSON_toJSON_Todo)
  then show ?thesis by (simp add: fromJSON_Plan_def toJSON_Plan_def)
qed

lemma fromJSON_entries_inverse:
  assumes "\<And>x. f (g x) = Some x"
  shows "fromJSON_entries f (map (\<lambda>(k, v). (k, g v)) kv) = Some kv"
  unfolding fromJSON_entries_def using assms by (induction kv) auto

lemma fromJSON_toJSON: "fromJSON (toJSON d) = Some d"
  by (simp add: fromJSON_def toJSON_def fromJSON_entries_inverse[of fromJSON_Goal toJSON_Goal]
      fromJSON_entries_inverse[of fromJSON_Plan toJSON_Plan]
      fromJSON_toJSON_Goal fromJSON_toJSON_Plan)

subsection \<open>Goals, plans and todos\<close>

lemma data_generateMarkdownFiles: "data (snd (generateMarkdownFiles s)) = data s"
  by (simp add: generateMarkdownFiles_def Let_def split: sum.splits)

lemma data_save: "data (snd (save s)) = data s"
  by (simp add: save_def data_generateMarkdownFiles split: sum.splits)

lemma generateMarkdownFiles_error:
  "generateMarkdownFiles s = (Inl e, s') \<Longrightarrow> \<exists>io. e = IOError io"
  by (auto simp: generateMarkdownFiles_def Let_def split: sum.splits if_splits)

lemma save_error: "save s = (Inl e, s') \<Longrightarrow> \<exists>io. e = IOError io"
  by (auto simp: save_def split: sum.splits dest: generateMarkdownFiles_error)

lemma save_error_fst: "fst (save s) = Inl e \<Longrightarrow> \<exists>io. e = IOError io"
  using save_error[of s e "snd (save s)"] by (metis prod.collapse)

lemma getPlan_setPlan: "getPlan gid (setPlan gid plan s) = Some plan"
  by (simp add: getPlan_def setPlan_def update_conv')

lemma getPlan_save: "getPlan gid (snd (save s)) = getPlan gid s"
  by (simp add: getPlan_def data_save)

lemma addTodo_state:
  assumes "getPlan gid s = Some plan"
  shows "snd (addTodo clk gid ttl descr cplx example s) =
    snd (save (setPlan gid (plan\<lparr>todos := todos plan @
        [\<lparr>todo_id = toString (clk 0), title = ttl, description = descr, complexity = cplx,
          codeExample = example, isComplete = False, createdAt = toISOString (clk 1),
          updatedAt = toISOString (clk 2)\<rparr>], plan_updatedAt := toISOString (clk 3)\<rparr>) s))"
  using assms by (simp add: addTodo_def Let_def split: prod.splits sum.splits)

lemma addTodo_result:
  assumes "getPlan gid s = Some plan"
  shows "case fst (addTodo clk gid ttl descr cplx example s) of
      Inr t \<Rightarrow> t = \<lparr>todo_id = toString (clk 0), title = ttl, description = descr, complexity = cplx,
          codeExample = example, isComplete = False, createdAt = toISOString (clk 1),
          updatedAt = toISOString (clk 2)\<rparr>
    | Inl e \<Rightarrow> \<exists>io. e = IOError io"
  using assms
  by (auto simp: addTodo_def Let_def split: prod.splits sum.splits dest: save_error)


lemma getTodos_addTodo:
  assumes "getPlan gid s = Some plan"
  shows "getTodos gid (snd (addTodo clk gid ttl descr cplx example s)) = todos plan @
        [\<lparr>todo_id = toString (clk 0), title = ttl, description = descr, complexity = cplx,
          codeExample = example, isComplete = False, createdAt = toISOString (clk 1),
          updatedAt = toISOString (clk 2)\<rparr>]"
  by (simp add: addTodo_state[OF assms] getTodos_def getPlan_save getPlan_setPlan)

lemma removeTodo_state:
  assumes "getPlan gid s = Some plan"
  shows "getPlan gid (snd (removeTodo clk gid todoId s)) =
    Some (plan\<lparr>todos := filter (\<lambda>todo. todo_id todo \<noteq> todoId) (todos plan),
               plan_updatedAt := toISOString (clk 0)\<rparr>)"
  using assms by (simp add: removeTodo_def Let_def getPlan_save getPlan_setPlan)

lemma removeTodo_error:
  assumes "getPlan gid s = Some plan" "fst (removeTodo clk gid todoId s) = Inl e"
  shows "\<exists>io. e = IOError io"
  using assms by (auto simp: removeTodo_def Let_def dest: save_error_fst)

lemma getPlan_exampleStorage: "getPlan ''1700000000000'' exampleStorage = Some examplePlan"
  by (simp add: getPlan_def exampleStorage_def exampleData_def)

text \<open>
  Claim C6 (as amended).  \<^verbatim>\<open>addTodo\<close> has no check of \<^verbatim>\<open>complexity\<close>: when the goal has a
  plan, the todo is appended with the complexity it was given, whatever its value, and the
  only error the call can end in is an error of writing the files.
\<close>

theorem addTodo_accepts_any_complexity:
  assumes "getPlan gid s = Some plan"
  shows "map complexity (getTodos gid (snd (addTodo clk gid ttl descr cplx example s)))
        = map complexity (todos plan) @ [cplx]
    \<and> (case fst (addTodo clk gid ttl descr cplx example s) of
          Inr t \<Rightarrow> complexity t = cplx
        | Inl e \<Rightarrow> \<exists>io. e = IOError io)"
proof -
  have 1: "map complexity (getTodos gid (snd (addTodo clk gid ttl descr cplx example s)))
        = map complexity (todos plan) @ [cplx]"
    by (simp add: getTodos_addTodo[OF assms])
  have 2: "case fst (addTodo clk gid ttl descr cplx example s) of
          Inr t \<Rightarrow> complexity t = cplx
        | Inl e \<Rightarrow> \<exists>io. e = IOError io"
    using addTodo_result[OF assms, of clk ttl descr cplx example]
    by (auto split: sum.splits)
  from 1 2 show ?thesis by (rule conjI)
qed

theorem addTodo_accepts_any_complexity_witness:
  "getPlan ''1700000000000'' exampleStorage = Some examplePlan
    \<and> map complexity (getTodos ''1700000000000''
          (snd (addTodo (frozenClock 1700000000500) ''1700000000000'' ''t'' ''d'' 11 None exampleStorage)))
        = map complexity (todos examplePlan) @ [11]
    \<and> (case fst (addTodo (frozenClock 1700000000500) ''1700000000000'' ''t'' ''d'' 11 None exampleStorage) of
          Inr t \<Rightarrow> complexity t = 11
        | Inl e \<Rightarrow> \<exists>io. e = IOError io)"
  using getPlan_exampleStorage addTodo_accepts_any_complexity[OF getPlan_exampleStorage]
  by (rule conjI)

theorem addTodo_complexity_11_counterexample:
  "fst (addTodo (frozenClock 1700000000500) ''1700000000000'' ''t'' ''d'' 11 None exampleStorage)
      = Inr \<lparr>todo_id = ''1700000000500'', title = ''t'', description = ''d'', complexity = 11,
             codeExample = None, isComplete = False, createdAt = ''2023-11-14T22:13:20.500Z'',
             updatedAt = ''2023-11-14T22:13:20.500Z''\<rparr>
   \<and> map complexity (getTodos ''1700000000000''
        (snd (addTodo (frozenClock 1700000000500) ''1700000000000'' ''t'' ''d'' 11 None exampleStorage)))
      = [11]"
  by code_simp

text \<open>
  Claim C10 (as amended).  A todo that \<^verbatim>\<open>addTodo\<close> returns is not complete, is the last
  element of the plan's todo sequence, and carries as \<^verbatim>\<open>createdAt\<close> and \<^verbatim>\<open>updatedAt\<close>
  the ISO strings of the second and the third clock reading of the call: the two are equal
  when the clock has not advanced between these readings.
\<close>

theorem addTodo_returns_new_todo:
  assumes "getPlan gid s = Some plan"
  shows "case fst (addTodo clk gid ttl descr cplx example s) of
      Inr t \<Rightarrow> \<not> isComplete t \<and> createdAt t = toISOString (clk 1)
          \<and> updatedAt t = toISOString (clk 2)
          \<and> getTodos gid (snd (addTodo clk gid ttl descr cplx example s)) = todos plan @ [t]
    | Inl e \<Rightarrow> \<exists>io. e = IOError io"
  using addTodo_result[OF assms, of clk ttl descr cplx example]
    getTodos_addTodo[OF assms, of clk ttl descr cplx example]
  by (auto split: sum.splits)

theorem addTodo_returns_new_todo_witness:
  "getPlan ''1700000000000'' exampleStorage = Some examplePlan
    \<and> (case fst (addTodo (frozenClock 1700000000500) ''1700000000000'' ''t'' ''d'' 3 None exampleStorage) of
      Inr t \<Rightarrow> \<not> isComplete t \<and> createdAt t = toISOString (frozenClock 1700000000500 1)
          \<and> updatedAt t = toISOString (frozenClock 1700000000500 2)
          \<and> getTodos ''1700000000000''
               (snd (addTodo (frozenClock 1700000000500) ''1700000000000'' ''t'' ''d'' 3 None exampleStorage))
             = todos examplePlan @ [t]
    | Inl e \<Rightarrow> \<exists>io. e = IOError io)"
  using getPlan_exampleStorage addTodo_returns_new_todo[OF getPlan_exampleStorage]
  by (rule conjI)

theorem addTodo_timestamps_counterexample:
  "fst (addTodo (stepClock 1700000000500 2) ''1700000000000'' ''t'' ''d'' 3 None exampleStorage)
      = Inr \<lparr>todo_id = ''1700000000500'', title = ''t'', description = ''d'', complexity = 3,
             codeExample = None, isComplete = False, createdAt = ''2023-11-14T22:13:20.500Z'',
             updatedAt = ''2023-11-14T22:13:20.501Z''\<rparr>
   \<and> map createdAt (getTodos ''1700000000000''
        (snd (addTodo (stepClock 1700000000500 2) ''1700000000000'' ''t'' ''d'' 3 None exampleStorage)))
      \<noteq> map updatedAt (getTodos ''1700000000000''
        (snd (addTodo (stepClock 1700000000500 2) ''1700000000000'' ''t'' ''d'' 3 None exampleStorage)))"
  by code_simp

text \<open>
  Claim C7 (as amended).  \<^verbatim>\<open>removeTodo\<close> with an id that no todo of the plan has leaves
  the todo sequence as it was and sets the plan's \<^verbatim>\<open>updatedAt\<close> to the ISO string of the
  clock reading; the only error the call can end in is an error of writing the files.
\<close>

theorem removeTodo_absent_id:
  assumes "getPlan gid s = Some plan" and "todoId \<notin> set (map todo_id (todos plan))"
  shows "getPlan gid (snd (removeTodo clk gid todoId s))
        = Some (plan\<lparr>plan_updatedAt := toISOString (clk 0)\<rparr>)
    \<and> (case fst (removeTodo clk gid todoId s) of
          Inr u \<Rightarrow> True
        | Inl e \<Rightarrow> \<exists>io. e = IOError io)"
proof -
  have "filter (\<lambda>todo. todo_id todo \<noteq> todoId) (todos plan) = todos plan"
    using assms(2) by (auto simp: filter_id_conv)
  then have 1: "getPlan gid (snd (removeTodo clk gid todoId s))
        = Some (plan\<lparr>plan_updatedAt := toISOString (clk 0)\<rparr>)"
    by (simp add: removeTodo_state[OF assms(1)])
  have 2: "case fst (removeTodo clk gid todoId s) of
          Inr u \<Rightarrow> True
        | Inl e \<Rightarrow> \<exists>io. e = IOError io"
    using removeTodo_error[OF assms(1), of clk todoId] by (auto split: sum.splits)
  from 1 2 show ?thesis by (rule conjI)
qed

theorem removeTodo_absent_id_witness:
  "getPlan ''1700000000000'' exampleStorage = Some examplePlan
    \<and> ''no-such-todo'' \<notin> set (map todo_id (todos examplePlan))
    \<and> getPlan ''1700000000000''
         (snd (removeTodo (frozenClock 1700000060000) ''1700000000000'' ''no-such-todo'' exampleStorage))
        = Some (examplePlan\<lparr>plan_updatedAt := toISOString (frozenClock 1700000060000 0)\<rparr>)
    \<and> (case fst (removeTodo (frozenClock 1700000060000) ''1700000000000'' ''no-such-todo'' exampleStorage) of
          Inr u \<Rightarrow> True
        | Inl e \<Rightarrow> \<exists>io. e = IOError io)"
proof -
  have h: "''no-such-todo'' \<notin> set (map todo_id (todos examplePlan))"
    by (simp add: examplePlan_def)
  from getPlan_exampleStorage h removeTodo_absent_id[OF getPlan_exampleStorage h]
  show ?thesis by blast
qed

theorem removeTodo_updatedAt_counterexample:
  "fst (removeTodo (frozenClock 1700000060000) ''1700000000000'' ''no-such-todo'' exampleStorage) = Inr ()
   \<and> map_option plan_updatedAt (getPlan ''1700000000000'' exampleStorage)
        = Some ''2023-11-14T22:13:20.000Z''
   \<and> map_option plan_updatedAt (getPlan ''1700000000000''
        (snd (removeTodo (frozenClock 1700000060000) ''1700000000000'' ''no-such-todo'' exampleStorage)))
        = Some ''2023-11-14T22:14:20.000Z''"
  by code_simp

lemma digits_nonempty: "digits n \<noteq> []"
  by (subst digits.simps) simp

lemma digit_inj: "0 \<le> a \<Longrightarrow> a < 10 \<Longrightarrow> 0 \<le> b \<Longrightarrow> b < 10 \<Longrightarrow> digit a = digit b \<Longrightarrow> a = b"
proof -
  assume a: "0 \<le> a" "a < 10" and b: "0 \<le> b" "b < 10" and e: "digit a = digit b"
  from e have "(of_char (digit a) :: int) = of_char (digit b)" by simp
  then have "(48 + a) mod 256 = (48 + b) mod 256" by (simp add: digit_def)
  then show "a = b" using a b by simp
qed

lemma digit_not_minus: "0 \<le> a \<Longrightarrow> a < 10 \<Longrightarrow> digit a \<noteq> CHR ''-''"
proof
  assume a: "0 \<le> a" "a < 10" and e: "digit a = CHR ''-''"
  from e have "(of_char (digit a) :: int) = of_char (CHR ''-'')" by simp
  then have "(48 + a) mod 256 = 45" by (simp add: digit_def)
  then show False using a by simp
qed

lemma digits_inj: "0 \<le> a \<Longrightarrow> 0 \<le> b \<Longrightarrow> digits a = digits b \<Longrightarrow> a = b"
proof (induction a arbitrary: b rule: digits.induct)
  case (1 n)
  show ?case
  proof (cases "n < 10")
    case True
    then have n: "digits n = [digit n]" by (subst digits.simps) simp
    show ?thesis
    proof (cases "b < 10")
      case True
      then have "digits b = [digit b]" by (subst digits.simps) simp
      with n "1.prems" show ?thesis using digit_inj[of n b] \<open>n < 10\<close> True by simp
    next
      case False
      then have "digits b = digits (b div 10) @ [digit (b mod 10)]" by (subst digits.simps) simp
      with n "1.prems"(3) have "digits (b div 10) = []" by simp
      then show ?thesis using digits_nonempty by blast
    qed
  next
    case False
    then have n: "digits n = digits (n div 10) @ [digit (n mod 10)]" by (subst digits.simps) simp
    show ?thesis
    proof (cases "b < 10")
      case True
      then have "digits b = [digit b]" by (subst digits.simps) simp
      with n "1.prems"(3) have "digits (n div 10) = []" by simp
      then show ?thesis using digits_nonempty by blast
    next
      case b: False
      then have "digits b = digits (b div 10) @ [digit (b mod 10)]" by (subst digits.simps) simp
      with n "1.prems"(3) have e: "digits (n div 10) = digits (b div 10)"
        "digit (n mod 10) = digit (b mod 10)" by simp_all
      have "n div 10 = b div 10"
        using "1.IH"[OF False _ _ e(1)] "1.prems" by simp
      moreover have "n mod 10 = b mod 10"
        using digit_inj[OF _ _ _ _ e(2)] by simp
      ultimately show ?thesis by (metis mult_div_mod_eq)
    qed
  qed
qed

lemma hd_digits: "0 \<le> n \<Longrightarrow> hd (digits n) \<noteq> CHR ''-''"
proof (induction n rule: digits.induct)
  case (1 n)
  show ?case
  proof (cases "n < 10")
    case True
    then show ?thesis using digit_not_minus[of n] "1.prems" by (subst digits.simps) simp
  next
    case False
    then show ?thesis using "1.IH" "1.prems" digits_nonempty[of "n div 10"]
      by (subst digits.simps) simp
  qed
qed

lemma toString_inj: "toString a = toString b \<Longrightarrow> a = b"
proof -
  assume e: "toString a = toString b"
  consider "a < 0" "b < 0" | "a < 0" "0 \<le> b" | "0 \<le> a" "b < 0" | "0 \<le> a" "0 \<le> b" by linarith
  then show ?thesis
  proof cases
    case 1
    then show ?thesis using e digits_inj[of "- a" "- b"] by (simp add: toString_def)
  next
    case 2
    then have "CHR ''-'' # digits (- a) = digits b" using e by (simp add: toString_def)
    then have "hd (digits b) = CHR ''-''" by (metis list.sel(1))
    then show ?thesis using hd_digits 2 by blast
  next
    case 3
    then have "CHR ''-'' # digits (- b) = digits a" using e by (simp add: toString_def)
    then have "hd (digits a) = CHR ''-''" by (metis list.sel(1))
    then show ?thesis using hd_digits 3 by blast
  next
    case 4
    then show ?thesis using e digits_inj[of a b] by (simp add: toString_def)
  qed
qed

lemma getPlan_addTodo:
  assumes "getPlan gid s = Some plan"
  shows "getPlan gid (snd (addTodo clk gid ttl descr cplx example s)) =
    Some (plan\<lparr>todos := todos plan @
        [\<lparr>todo_id = toString (clk 0), title = ttl, description = descr, complexity = cplx,
          codeExample = example, isComplete = False, createdAt = toISOString (clk 1),
          updatedAt = toISOString (clk 2)\<rparr>], plan_updatedAt := toISOString (clk 3)\<rparr>)"
  by (simp add: addTodo_state[OF assms] getPlan_save getPlan_setPlan)

text \<open>
  Claim C8 (as amended).  The id of a new todo is the decimal text of the first clock
  reading of the \<^verbatim>\<open>addTodo\<close> call that makes it.  After the call the ids of the plan are
  pairwise distinct exactly when they were so before and the new id is none of them; the
  todos of two successive calls on the same plan have distinct ids exactly when the two
  readings differ.
\<close>

theorem addTodo_ids:
  assumes "getPlan gid s = Some plan"
  shows "map todo_id (getTodos gid (snd (addTodo clk gid ttl descr cplx example s)))
        = map todo_id (todos plan) @ [toString (clk 0)]
    \<and> distinct (map todo_id (getTodos gid (snd (addTodo clk gid ttl descr cplx example s))))
        = (distinct (map todo_id (todos plan)) \<and> toString (clk 0) \<notin> set (map todo_id (todos plan)))
    \<and> map todo_id (getTodos gid (snd (addTodo clk' gid ttl' descr' cplx' example'
          (snd (addTodo clk gid ttl descr cplx example s)))))
        = map todo_id (todos plan) @ [toString (clk 0), toString (clk' 0)]
    \<and> (toString (clk 0) = toString (clk' 0)) = (clk 0 = clk' 0)"
proof -
  have 1: "map todo_id (getTodos gid (snd (addTodo clk gid ttl descr cplx example s)))
        = map todo_id (todos plan) @ [toString (clk 0)]"
    by (simp add: getTodos_addTodo[OF assms])
  have 2: "distinct (map todo_id (getTodos gid (snd (addTodo clk gid ttl descr cplx example s))))
        = (distinct (map todo_id (todos plan)) \<and> toString (clk 0) \<notin> set (map todo_id (todos plan)))"
    unfolding 1 by auto
  have 3: "map todo_id (getTodos gid (snd (addTodo clk' gid ttl' descr' cplx' example'
          (snd (addTodo clk gid ttl descr cplx example s)))))
        = map todo_id (todos plan) @ [toString (clk 0), toString (clk' 0)]"
    by (simp add: getTodos_addTodo[OF getPlan_addTodo[OF assms]])
  have 4: "(toString (clk 0) = toString (clk' 0)) = (clk 0 = clk' 0)"
    using toString_inj[of "clk 0" "clk' 0"] by auto
  from 1 2 3 4 show ?thesis by simp
qed

theorem addTodo_ids_witness:
  "getPlan ''1700000000000'' exampleStorage = Some examplePlan
    \<and> map todo_id (getTodos ''1700000000000''
          (snd (addTodo (frozenClock 1700000000500) ''1700000000000'' ''a'' ''b'' 1 None exampleStorage)))
        = map todo_id (todos examplePlan) @ [toString (frozenClock 1700000000500 0)]
    \<and> distinct (map todo_id (getTodos ''1700000000000''
          (snd (addTodo (frozenClock 1700000000500) ''1700000000000'' ''a'' ''b'' 1 None exampleStorage))))
        = (distinct (map todo_id (todos examplePlan))
           \<and> toString (frozenClock 1700000000500 0) \<notin> set (map todo_id (todos examplePlan)))
    \<and> map todo_id (getTodos ''1700000000000''
          (snd (addTodo (frozenClock 1700000000900) ''1700000000000'' ''c'' ''d'' 2 None
          (snd (addTodo (frozenClock 1700000000500) ''1700000000000'' ''a'' ''b'' 1 None exampleStorage)))))
        = map todo_id (todos examplePlan)
          @ [toString (frozenClock 1700000000500 0), toString (frozenClock 1700000000900 0)]
    \<and> (toString (frozenClock 1700000000500 0) = toString (frozenClock 1700000000900 0))
        = (frozenClock 1700000000500 0 = frozenClock 1700000000900 0)"
  using getPlan_exampleStorage addTodo_ids[OF getPlan_exampleStorage]
  by (rule conjI)

theorem addTodo_same_tick_counterexample:
  "map todo_id (getTodos ''1700000000000''
      (snd (addTodo (frozenClock 1700000000500) ''1700000000000'' ''c'' ''d'' 2 None
      (snd (addTodo (frozenClock 1700000000500) ''1700000000000'' ''a'' ''b'' 1 None exampleStorage)))))
    = [''1700000000500'', ''1700000000500'']
  \<and> \<not> distinct (map todo_id (getTodos ''1700000000000''
      (snd (addTodo (frozenClock 1700000000500) ''1700000000000'' ''c'' ''d'' 2 None
      (snd (addTodo (frozenClock 1700000000500) ''1700000000000'' ''a'' ''b'' 1 None exampleStorage))))))"
  by code_simp

subsection \<open>Listing the plans\<close>

lemma lookup_snoc:
  "lookup n (p @ [x]) = (case lookup n p of Some (Dir es) \<Rightarrow> map_of es x | _ \<Rightarrow> None)"
  by (auto simp: lookup_append split: option.splits node.splits)

lemma listPlans_sorted: "sorted (listPlans s)"
  by (simp add: listPlans_def split: sum.splits)

lemma readdir_names:
  "map fst (filter (\<lambda>(name, isDir). isDir \<and> name \<noteq> x) (map (\<lambda>(n, c). (n, isDirectory c)) es))
    = map fst (filter (\<lambda>(n, c). isDirectory c \<and> n \<noteq> x) es)"
  by (induction es) auto

lemma listPlans_Dir:
  assumes "lookup (disk s) (baseStorageDir s) = Some (Dir es)"
  shows "listPlans s = sort (map fst (filter (\<lambda>(n, c). isDirectory c \<and> n \<noteq> ''v1-backup'') es))"
  using assms by (simp add: listPlans_def fs_readdir_def readdir_names)

lemma listPlans_not_Dir:
  assumes "\<not> is_dir_at (disk s) (baseStorageDir s)"
  shows "listPlans s = []"
  using assms by (auto simp: listPlans_def fs_readdir_def is_dir_at_def split: option.splits node.splits)

lemma listPlans_distinct:
  assumes "uniqueNames (disk s) (baseStorageDir s)"
  shows "distinct (listPlans s)"
proof (cases "is_dir_at (disk s) (baseStorageDir s)")
  case True
  then obtain es where es: "lookup (disk s) (baseStorageDir s) = Some (Dir es)"
    by (auto simp: is_dir_at_def split: option.splits node.splits)
  with assms have "distinct (map fst es)" by (simp add: uniqueNames_def)
  then show ?thesis by (simp add: listPlans_Dir[OF es] distinct_map_filter)
next
  case False
  then show ?thesis by (simp add: listPlans_not_Dir)
qed

lemma listPlans_set:
  assumes "uniqueNames (disk s) (baseStorageDir s)"
  shows "set (listPlans s)
    = {name. is_dir_at (disk s) (baseStorageDir s @ [name]) \<and> name \<noteq> ''v1-backup''}"
proof (cases "is_dir_at (disk s) (baseStorageDir s)")
  case True
  then obtain es where es: "lookup (disk s) (baseStorageDir s) = Some (Dir es)"
    by (auto simp: is_dir_at_def split: option.splits node.splits)
  with assms have d: "distinct (map fst es)" by (simp add: uniqueNames_def)
  have "\<And>name. is_dir_at (disk s) (baseStorageDir s @ [name])
      = (\<exists>c. map_of es name = Some c \<and> isDirectory c)"
    using es by (auto simp: is_dir_at_def lookup_snoc split: option.splits node.splits)
  then have "\<And>name. is_dir_at (disk s) (baseStorageDir s @ [name])
      = (\<exists>c. (name, c) \<in> set es \<and> isDirectory c)"
    using d by (simp add: map_of_eq_Some_iff)
  then show ?thesis
    by (force simp: listPlans_Dir[OF es])
next
  case False
  then have "\<And>name. \<not> is_dir_at (disk s) (baseStorageDir s @ [name])"
    by (auto simp: is_dir_at_def lookup_snoc split: option.splits node.splits)
  then show ?thesis using False by (simp add: listPlans_not_Dir)
qed

text \<open>
  Claim C9.  \<^verbatim>\<open>listPlans\<close> returns, in ascending order and each once, exactly the names
  of the directories in the namespace root other than \<^verbatim>\<open>v1-backup\<close>; it returns the
  empty list when the namespace root does not exist.
\<close>

theorem listPlans_lists_subdirectories:
  assumes "uniqueNames (disk s) (baseStorageDir s)"
  shows "sorted (listPlans s) \<and> distinct (listPlans s)
    \<and> set (listPlans s)
        = {name. is_dir_at (disk s) (baseStorageDir s @ [name]) \<and> name \<noteq> ''v1-backup''}
    \<and> (case lookup (disk s) (baseStorageDir s) of None \<Rightarrow> listPlans s = [] | Some n \<Rightarrow> True)"
proof -
  have "case lookup (disk s) (baseStorageDir s) of None \<Rightarrow> listPlans s = [] | Some n \<Rightarrow> True"
    by (auto simp: listPlans_not_Dir is_dir_at_def split: option.splits)
  then show ?thesis
    using listPlans_sorted[of s] listPlans_distinct[OF assms] listPlans_set[OF assms] by simp
qed

theorem listPlans_lists_subdirectories_witness:
  "uniqueNames (disk twoPlansStorage) (baseStorageDir twoPlansStorage)
    \<and> listPlans twoPlansStorage = [''feat-x'', ''main'']
    \<and> sorted (listPlans twoPlansStorage) \<and> distinct (listPlans twoPlansStorage)
    \<and> set (listPlans twoPlansStorage)
        = {name. is_dir_at (disk twoPlansStorage) (baseStorageDir twoPlansStorage @ [name])
             \<and> name \<noteq> ''v1-backup''}
    \<and> (case lookup (disk twoPlansStorage) (baseStorageDir twoPlansStorage) of
          None \<Rightarrow> listPlans twoPlansStorage = [] | Some n \<Rightarrow> True)
    \<and> uniqueNames (disk (Storage_constructor [''proj''] (Dir [])))
          (baseStorageDir (Storage_constructor [''proj''] (Dir [])))
    \<and> lookup (disk (Storage_constructor [''proj''] (Dir [])))
          (baseStorageDir (Storage_constructor [''proj''] (Dir []))) = None
    \<and> listPlans (Storage_constructor [''proj''] (Dir [])) = []"
proof -
  have h: "uniqueNames (disk twoPlansStorage) (baseStorageDir twoPlansStorage)"
    by code_simp
  have l: "listPlans twoPlansStorage = [''feat-x'', ''main'']"
    by code_simp
  have h': "uniqueNames (disk (Storage_constructor [''proj''] (Dir [])))
          (baseStorageDir (Storage_constructor [''proj''] (Dir [])))"
    by code_simp
  have n: "lookup (disk (Storage_constructor [''proj''] (Dir [])))
          (baseStorageDir (Storage_constructor [''proj''] (Dir []))) = None"
    by code_simp
  from listPlans_lists_subdirectories[OF h'] n
  have e: "listPlans (Storage_constructor [''proj''] (Dir [])) = []" by simp
  from h l listPlans_lists_subdirectories[OF h] h' n e show ?thesis by blast
qed

subsection \<open>Saving and loading\<close>

lemma writeFile_Inr:
  assumes "fs_writeFile p c d = Inr d'"
  shows "d' = put p (File c) d" "p \<noteq> []" "is_dir_at d (butlast p)"
  using assms by (auto simp: fs_writeFile_def split: if_splits)

lemma writeFile_lookup: "fs_writeFile p c d = Inr d' \<Longrightarrow> lookup d' p = Some (File c)"
  using writeFile_Inr[of p c d d'] by (simp add: put_same)

lemma writeFile_frame: "fs_writeFile p c d = Inr d' \<Longrightarrow> indep p q \<Longrightarrow> lookup d' q = lookup d q"
  using writeFile_Inr[of p c d d'] by (simp add: put_frame)

lemma writeFile_keeps_dir:
  "fs_writeFile p c d = Inr d' \<Longrightarrow> is_dir_at d q \<Longrightarrow> \<not> prefix p q \<Longrightarrow> is_dir_at d' q"
  using writeFile_Inr[of p c d d'] by (simp add: put_keeps_dir)

lemma butlast_snoc_path: "butlast (p @ [x]) = p"
  by simp

lemma paths_ok:
  assumes "updatePaths s = s"
  shows "sanitizePlanName (currentPlan s) = currentPlan s"
    and "baseStorageDir s = currentWorkingDirectory s @ [''.cursor'', ''softwareplan'']"
    and "cursorDir s = baseStorageDir s @ [currentPlan s]"
    and "storagePath s = cursorDir s @ [''data.json'']"
    and "planPath s = cursorDir s @ [''plan.md'']"
    and "tasksPath s = cursorDir s @ [''tasks.md'']"
proof -
  from assms have c: "currentPlan (updatePaths s) = currentPlan s" by simp
  then show 1: "sanitizePlanName (currentPlan s) = currentPlan s"
    by (simp add: updatePaths_def Let_def split: if_splits)
  from assms have "baseStorageDir (updatePaths s) = baseStorageDir s" by simp
  then show 2: "baseStorageDir s = currentWorkingDirectory s @ [''.cursor'', ''softwareplan'']"
    by (simp add: updatePaths_def Let_def split: if_splits)
  from assms have "cursorDir (updatePaths s) = cursorDir s" by simp
  then show 3: "cursorDir s = baseStorageDir s @ [currentPlan s]"
    using 1 2 by (simp add: updatePaths_def Let_def split: if_splits)
  from assms have "storagePath (updatePaths s) = storagePath s" by simp
  then show "storagePath s = cursorDir s @ [''data.json'']"
    using 1 2 3 by (simp add: updatePaths_def Let_def split: if_splits)
  from assms have "planPath (updatePaths s) = planPath s" by simp
  then show "planPath s = cursorDir s @ [''plan.md'']"
    using 1 2 3 by (simp add: updatePaths_def Let_def split: if_splits)
  from assms have "tasksPath (updatePaths s) = tasksPath s" by simp
  then show "tasksPath s = cursorDir s @ [''tasks.md'']"
    using 1 2 3 by (simp add: updatePaths_def Let_def split: if_splits)
qed

lemma indep_snoc: "indep p q \<Longrightarrow> indep (p @ [x]) q"
  by (auto simp: indep_def dest: append_prefixD)

lemma generateMarkdownFiles_Inr:
  assumes "generateMarkdownFiles s = (Inr u, s1)"
    and "planPath s = cursorDir s @ [''plan.md'']" and "tasksPath s = cursorDir s @ [''tasks.md'']"
  shows "\<exists>d. s1 = s\<lparr>disk := d\<rparr>
      \<and> lookup d (cursorDir s @ [''data.json'']) = lookup (disk s) (cursorDir s @ [''data.json''])
      \<and> (is_dir_at (disk s) (cursorDir s) \<longrightarrow> is_dir_at d (cursorDir s))
      \<and> (\<forall>q. indep (cursorDir s) q \<longrightarrow> lookup d q = lookup (disk s) q)"
proof (cases "map snd (goals (data s)) = []")
  case True
  then have "s1 = s" using assms(1) by (simp add: generateMarkdownFiles_def)
  then have "s1 = s\<lparr>disk := disk s\<rparr>" by simp
  then show ?thesis by blast
next
  case False
  from False assms(1) obtain d1 d2 where
    w1: "fs_writeFile (planPath s)
           (PlanMarkdown (currentPlan s) (currentWorkingDirectory s) (map snd (goals (data s)))
              (map snd (plans (data s)))) (disk s) = Inr d1"
    and w2: "fs_writeFile (tasksPath s)
           (TasksMarkdown (currentPlan s) (currentWorkingDirectory s) (map snd (plans (data s)))) d1
           = Inr d2"
    and s1: "s1 = s\<lparr>disk := d2\<rparr>"
    by (auto simp: generateMarkdownFiles_def Let_def split: sum.splits)
  have i1: "indep (planPath s) (cursorDir s @ [''data.json''])"
    and i2: "indep (tasksPath s) (cursorDir s @ [''data.json''])"
    by (simp_all add: assms(2,3) indep_def)
  have f: "lookup d2 (cursorDir s @ [''data.json'']) = lookup (disk s) (cursorDir s @ [''data.json''])"
    using writeFile_frame[OF w1 i1] writeFile_frame[OF w2 i2] by simp
  have k: "is_dir_at (disk s) (cursorDir s) \<longrightarrow> is_dir_at d2 (cursorDir s)"
    using writeFile_keeps_dir[OF w1, of "cursorDir s"] writeFile_keeps_dir[OF w2, of "cursorDir s"]
    by (simp add: assms(2,3))
  have o: "\<forall>q. indep (cursorDir s) q \<longrightarrow> lookup d2 q = lookup (disk s) q"
  proof (intro allI impI)
    fix q assume "indep (cursorDir s) q"
    then have "indep (planPath s) q" "indep (tasksPath s) q"
      by (simp_all add: assms(2,3) indep_snoc)
    then show "lookup d2 q = lookup (disk s) q"
      using writeFile_frame[OF w1] writeFile_frame[OF w2] by simp
  qed
  from s1 f k o show ?thesis by blast
qed

lemma save_Inr:
  assumes "save s = (Inr u, s1)" and "updatePaths s = s"
  shows "\<exists>d. s1 = s\<lparr>disk := d\<rparr>
      \<and> lookup d (storagePath s) = Some (File (JsonText (toJSON (data s))))
      \<and> is_dir_at d (cursorDir s)
      \<and> (\<forall>q. indep (cursorDir s) q \<longrightarrow> lookup d q = lookup (disk s) q)"
proof -
  note p = paths_ok[OF assms(2)]
  from assms(1) obtain d1 where
    w: "fs_writeFile (storagePath s) (JsonText (toJSON (data s))) (disk s) = Inr d1"
    and g: "generateMarkdownFiles (s\<lparr>disk := d1\<rparr>) = (Inr u, s1)"
    by (auto simp: save_def split: sum.splits)
  from generateMarkdownFiles_Inr[OF g] p obtain d where
    s1: "s1 = s\<lparr>disk := d\<rparr>"
    and f: "lookup d (cursorDir s @ [''data.json'']) = lookup d1 (cursorDir s @ [''data.json''])"
    and k: "is_dir_at d1 (cursorDir s) \<longrightarrow> is_dir_at d (cursorDir s)"
    and o: "\<forall>q. indep (cursorDir s) q \<longrightarrow> lookup d q = lookup d1 q"
    by auto
  have a: "lookup d (storagePath s) = Some (File (JsonText (toJSON (data s))))"
    using f writeFile_lookup[OF w] p(4) by simp
  have "is_dir_at (disk s) (cursorDir s)"
    using writeFile_Inr(3)[OF w] p(4) by simp
  then have "is_dir_at d1 (cursorDir s)"
    using writeFile_keeps_dir[OF w, of "cursorDir s"] p(4) by simp
  then have b: "is_dir_at d (cursorDir s)" using k by simp
  have c: "\<forall>q. indep (cursorDir s) q \<longrightarrow> lookup d q = lookup (disk s) q"
  proof (intro allI impI)
    fix q assume i: "indep (cursorDir s) q"
    then have "indep (storagePath s) q" by (simp add: p(4) indep_snoc)
    then show "lookup d q = lookup (disk s) q"
      using writeFile_frame[OF w] o i by simp
  qed
  from s1 a b c show ?thesis by blast
qed

text \<open>
  What \<^verbatim>\<open>initialize\<close> does when there is no legacy record file and the directory of
  the active plan exists: it reads the record file and writes nothing, unless the file
  cannot be read, where it saves the empty record.
\<close>

lemma initialize_no_legacy:
  assumes "\<not> isV1Project s" and "is_dir_at (disk s) (cursorDir s)"
  shows "initialize s =
    (case fs_readFile (disk s) (storagePath s) of
       Inr (JsonText j) \<Rightarrow>
         (case fromJSON j of
            Some r \<Rightarrow> (Inr (), s\<lparr>data := r\<rparr>)
          | None \<Rightarrow> (Inl (IllTypedRecord j), s\<lparr>data := emptyData\<rparr>))
     | _ \<Rightarrow> save (s\<lparr>data := emptyData\<rparr>))"
proof -
  have v: "\<not> isV1Project (s\<lparr>data := emptyData\<rparr>)"
    using assms(1) by (simp add: isV1Project_def)
  have m: "fs_mkdir (cursorDir s) (disk s) = Inr (disk s)"
    using assms(2) by (rule mkdir_existing)
  show ?thesis
    by (simp add: initialize_def Let_def v m split: sum.splits content.splits option.splits)
qed



subsection \<open>Switching the active plan\<close>

lemma mkdir_of_existing:
  "lookup d p = Some n \<Longrightarrow> fs_mkdir p d = Inr d' \<Longrightarrow> d' = d \<and> is_dir_at d p"
proof (induction p arbitrary: d d')
  case Nil
  then show ?case by (cases d) (auto simp: is_dir_at_Nil)
next
  case (Cons x p)
  obtain es where d: "d = Dir es" using Cons.prems by (cases d) auto
  obtain c where c: "map_of es x = Some c" "lookup c p = Some n"
    using Cons.prems(1) d by (auto split: option.splits)
  obtain c' where c': "fs_mkdir p c = Inr c'" and d': "d' = Dir (AList.update x c' es)"
    using Cons.prems(2) d c by (auto split: sum.splits)
  from Cons.IH[OF c(2) c'] have "c' = c" "is_dir_at c p" by simp_all
  then show ?case using d d' c by (simp add: is_dir_at_Cons update_triv)
qed




lemma valid_name_chars:
  assumes "sanitizePlanName n = n" and "c \<in> set n"
  shows "planNameChar c"
proof (cases "validPlanRegex_test n")
  case True
  then show ?thesis using assms(2) by (rule valid_chars)
next
  case False
  then have "n = ''main''" using assms(1) by (simp add: sanitizePlanName_def)
  then show ?thesis using assms(2) main_chars by simp
qed

lemma valid_name_not_file:
  assumes "sanitizePlanName n = n"
  shows "n \<noteq> ''data.json''" "n \<noteq> ''plan.md''" "n \<noteq> ''tasks.md''"
  using valid_name_chars[OF assms, of "CHR ''.''"] unsafe_chars(1) by auto



lemma updatePaths_data: "updatePaths (s\<lparr>data := x\<rparr>) = (updatePaths s)\<lparr>data := x\<rparr>"
  by (simp add: updatePaths_def Let_def)

lemma initialize_effect:
  assumes P: "updatePaths s = s" and L: "\<not> isV1Project s"
    and E: "lookup (disk s) (cursorDir s) \<noteq> None" and I: "initialize s = (Inr u, s1)"
  shows "\<exists>d r. s1 = s\<lparr>data := r, disk := d\<rparr>
      \<and> (\<forall>q. indep (cursorDir s) q \<longrightarrow> lookup d q = lookup (disk s) q)
      \<and> (\<forall>j. fs_readFile (disk s) (storagePath s) = Inr (JsonText j)
            \<longrightarrow> d = disk s \<and> fromJSON j = Some r)"
proof -
  have v: "\<not> isV1Project (s\<lparr>data := emptyData\<rparr>)"
    using L by (simp add: isV1Project_def)
  from E obtain n where n: "lookup (disk s) (cursorDir s) = Some n" by blast
  have k: "is_dir_at (disk s) (cursorDir s)"
  proof (cases "fs_mkdir (cursorDir s) (disk s)")
    case (Inl e)
    then show ?thesis using I by (simp add: initialize_def Let_def v)
  next
    case (Inr d')
    from mkdir_of_existing[OF n Inr] show ?thesis by simp
  qed
  note i = I[unfolded initialize_no_legacy[OF L k]]
  show ?thesis
  proof (cases "\<exists>j. fs_readFile (disk s) (storagePath s) = Inr (JsonText j)")
    case True
    then obtain j where j: "fs_readFile (disk s) (storagePath s) = Inr (JsonText j)" by blast
    from i j obtain r where r: "fromJSON j = Some r" "s1 = s\<lparr>data := r\<rparr>"
      by (auto split: option.splits)
    then have "s1 = s\<lparr>data := r, disk := disk s\<rparr>" by simp
    then show ?thesis using j r(1) by auto
  next
    case False
    then have "save (s\<lparr>data := emptyData\<rparr>) = (Inr u, s1)"
      using i by (auto split: sum.splits content.splits)
    from save_Inr[OF this] P obtain d where
      "s1 = s\<lparr>data := emptyData, disk := d\<rparr>"
      "\<forall>q. indep (cursorDir s) q \<longrightarrow> lookup d q = lookup (disk s) q"
      by (auto simp: updatePaths_data)
    then show ?thesis using False by auto
  qed
qed




subsection \<open>Legacy migration\<close>

subsubsection \<open>Renaming, copying and removing\<close>

lemma is_dir_at_take: "is_dir_at d (p @ q) \<Longrightarrow> is_dir_at d p"
proof (induction p arbitrary: d)
  case Nil
  then show ?case by (cases q) (auto simp: is_dir_at_Nil is_dir_at_Cons)
next
  case (Cons x p)
  then show ?case by (auto simp: is_dir_at_Cons)
qed

lemma prefix_butlast: "prefix p (butlast q) \<Longrightarrow> prefix p q"
  by (metis prefix_order.order_trans prefixeq_butlast)

lemma rename_Inr:
  assumes "fs_rename src dst d = Inr d'" and "src \<noteq> dst"
  shows "\<exists>n. lookup d src = Some n \<and> d' = put dst n (del src d)"
    and "src \<noteq> []" and "dst \<noteq> []" and "is_dir_at d (butlast dst)" and "\<not> prefix src dst"
  using assms
  by (auto simp: fs_rename_def split: option.splits if_splits node.splits)

lemma rename_frame:
  assumes "fs_rename src dst d = Inr d'" and "indep src q" and "indep dst q"
  shows "lookup d' q = lookup d q"
proof (cases "src = dst")
  case True
  then show ?thesis using assms(1)
    by (auto simp: fs_rename_def split: option.splits if_splits)
next
  case False
  from rename_Inr(1)[OF assms(1) False] show ?thesis
    using assms(2,3) by (auto simp: put_frame del_frame)
qed

lemma rename_keeps_dir:
  assumes "fs_rename src dst d = Inr d'" and "is_dir_at d q"
    and "\<not> prefix src q" and "\<not> prefix dst q"
  shows "is_dir_at d' q"
proof (cases "src = dst")
  case True
  then show ?thesis using assms(1,2)
    by (auto simp: fs_rename_def split: option.splits if_splits)
next
  case False
  from rename_Inr(1)[OF assms(1) False] show ?thesis
    using assms(2,3,4) by (auto simp: put_keeps_dir del_keeps_dir)
qed

lemma rename_moves:
  assumes "fs_rename src dst d = Inr d'" and "indep src dst"
  shows "lookup d' src = None" and "lookup d' dst = lookup d src"
proof -
  have ne: "src \<noteq> dst" using assms(2) by (auto simp: indep_def)
  note r = rename_Inr[OF assms(1) ne]
  from r(1) obtain n where n: "lookup d src = Some n" "d' = put dst n (del src d)" by blast
  show "lookup d' src = None"
    using n(2) r(2) assms(2) by (simp add: put_frame indep_sym del_same)
  have "\<not> prefix src (butlast dst)" using r(5) prefix_butlast by blast
  then have "is_dir_at (del src d) (butlast dst)" using r(4) by (simp add: del_keeps_dir)
  then show "lookup d' dst = lookup d src"
    using n r(3) by (simp add: put_same)
qed


lemma copyFile_Inr:
  assumes "fs_copyFile src dst d = Inr d'"
  shows "\<exists>c. lookup d src = Some (File c) \<and> d' = put dst (File c) d"
  using assms by (auto simp: fs_copyFile_def split: option.splits if_splits node.splits)

lemma copyFile_frame: "fs_copyFile src dst d = Inr d' \<Longrightarrow> indep dst q \<Longrightarrow> lookup d' q = lookup d q"
  using copyFile_Inr[of src dst d d'] by (auto simp: put_frame)

lemma copyFile_keeps_dir:
  "fs_copyFile src dst d = Inr d' \<Longrightarrow> is_dir_at d q \<Longrightarrow> \<not> prefix dst q \<Longrightarrow> is_dir_at d' q"
  using copyFile_Inr[of src dst d d'] by (auto simp: put_keeps_dir)

lemma rmdir_Inr: "fs_rmdir p d = Inr d' \<Longrightarrow> d' = del p d \<and> p \<noteq> []"
  by (auto simp: fs_rmdir_def split: option.splits if_splits node.splits)

lemma rmdir_frame: "fs_rmdir p d = Inr d' \<Longrightarrow> indep p q \<Longrightarrow> lookup d' q = lookup d q"
  using rmdir_Inr[of p d d'] by (auto simp: del_frame)

lemma rmdir_keeps_dir:
  "fs_rmdir p d = Inr d' \<Longrightarrow> is_dir_at d q \<Longrightarrow> \<not> prefix p q \<Longrightarrow> is_dir_at d' q"
  using rmdir_Inr[of p d d'] by (auto simp: del_keeps_dir)


subsubsection \<open>The object apart from the disk and the console\<close>

lemma console_error_simps [simp]:
  "disk (console_error l s) = disk s"
  "console (console_error l s) = console s @ [l]"
  "data (console_error l s) = data s"
  "baseStorageDir (console_error l s) = baseStorageDir s"
  by (simp_all add: console_error_def)

lemma console_error_object: "console_error l s = s\<lparr>console := console s @ [l]\<rparr>"
  by (simp add: console_error_def)

lemma sameObject_refl [simp]: "sameObject s s"
  by (simp add: sameObject_def)

lemma sameObject_trans:
  assumes "sameObject s s'" and "sameObject s' s''"
  shows "sameObject s s''"
proof -
  from assms have e1: "s'\<lparr>disk := disk s, console := console s\<rparr> = s"
    and e2: "s''\<lparr>disk := disk s', console := console s'\<rparr> = s'"
    by (simp_all add: sameObject_def)
  have "s''\<lparr>disk := disk s, console := console s\<rparr>
      = (s''\<lparr>disk := disk s', console := console s'\<rparr>)\<lparr>disk := disk s, console := console s\<rparr>"
    by simp
  also have "\<dots> = s'\<lparr>disk := disk s, console := console s\<rparr>" by (simp only: e2)
  also have "\<dots> = s" by (rule e1)
  finally show ?thesis by (simp add: sameObject_def)
qed

lemma sameObject_console_error [simp]: "sameObject s (console_error l s)"
  by (simp add: sameObject_def console_error_def)

lemma sameObject_disk [simp]: "sameObject s (s\<lparr>disk := d\<rparr>)"
  by (simp add: sameObject_def)

lemma sameObject_fields:
  assumes "sameObject s s'"
  shows "data s' = data s" "baseStorageDir s' = baseStorageDir s" "cursorDir s' = cursorDir s"
    "storagePath s' = storagePath s" "currentPlan s' = currentPlan s"
proof -
  from assms have e: "s'\<lparr>disk := disk s, console := console s\<rparr> = s" by (simp add: sameObject_def)
  have "data s' = data (s'\<lparr>disk := disk s, console := console s\<rparr>)" by simp
  then show "data s' = data s" using e by simp
  have "baseStorageDir s' = baseStorageDir (s'\<lparr>disk := disk s, console := console s\<rparr>)" by simp
  then show "baseStorageDir s' = baseStorageDir s" using e by simp
  have "cursorDir s' = cursorDir (s'\<lparr>disk := disk s, console := console s\<rparr>)" by simp
  then show "cursorDir s' = cursorDir s" using e by simp
  have "storagePath s' = storagePath (s'\<lparr>disk := disk s, console := console s\<rparr>)" by simp
  then show "storagePath s' = storagePath s" using e by simp
  have "currentPlan s' = currentPlan (s'\<lparr>disk := disk s, console := console s\<rparr>)" by simp
  then show "currentPlan s' = currentPlan s" using e by simp
qed

lemma sameObject_step: "sameObject s s' \<Longrightarrow> sameObject s (console_error l (s'\<lparr>disk := d\<rparr>))"
  by (rule sameObject_trans[of s s'], assumption) (simp add: sameObject_def console_error_def)

lemma sameObject_log: "sameObject s s' \<Longrightarrow> sameObject s (console_error l s')"
  by (rule sameObject_trans[of s s'], assumption) simp

subsubsection \<open>The restoring loop\<close>


lemma restoreFiles_sameObject: "sameObject s (restoreFiles ops s)"
proof (induction ops arbitrary: s)
  case Nil
  then show ?case by simp
next
  case (Cons op ops)
  obtain a b where op: "op = (a, b)" by (cases op)
  show ?case
  proof (cases "fs_rename b a (disk s)")
    case (Inl e)
    have "sameObject s (console_error (''[Storage] Failed to restore '' @ last a @ '': '' @ ioerr_message e) s)"
      by simp
    from sameObject_trans[OF this Cons.IH] show ?thesis using op Inl by simp
  next
    case (Inr d)
    have "sameObject s (console_error (''[Storage] Restored: '' @ last a) (s\<lparr>disk := d\<rparr>))"
      by (rule sameObject_step) simp
    from sameObject_trans[OF this Cons.IH] show ?thesis using op Inr by simp
  qed
qed


subsubsection \<open>The rollback\<close>

lemma rollbackMigration_unfold:
  "rollbackMigration ops m s = console_error ''[Storage] Rollback completed''
     (restoreFiles ops
       (case fs_rmdir m (disk s) of
          Inl e \<Rightarrow> console_error ''[Storage] Rolling back migration...'' s
        | Inr d \<Rightarrow> (console_error ''[Storage] Rolling back migration...'' s)\<lparr>disk := d\<rparr>))"
  by (simp add: rollbackMigration_def Let_def)

lemma rollbackMigration_sameObject: "sameObject s (rollbackMigration ops m s)"
proof -
  define s2 where "s2 = (case fs_rmdir m (disk s) of
          Inl e \<Rightarrow> console_error ''[Storage] Rolling back migration...'' s
        | Inr d \<Rightarrow> (console_error ''[Storage] Rolling back migration...'' s)\<lparr>disk := d\<rparr>)"
  have "sameObject s s2"
    unfolding s2_def by (cases "fs_rmdir m (disk s)") (simp_all add: sameObject_def console_error_def)
  from sameObject_trans[OF this restoreFiles_sameObject[of s2 ops]]
  have "sameObject s (restoreFiles ops s2)" .
  from sameObject_log[OF this] show ?thesis
    unfolding rollbackMigration_unfold s2_def .
qed


subsubsection \<open>The backup loop\<close>

lemma backupFiles_frame:
  assumes "\<forall>f \<in> set files. indep (fst f) q \<and> indep (bd @ [fst (snd f)]) q"
  shows "lookup (disk (snd (backupFiles bd files ops s))) q = lookup (disk s) q"
  using assms
proof (induction files arbitrary: ops s)
  case Nil
  then show ?case by simp
next
  case (Cons f files)
  obtain src name req where f: "f = (src, name, req)" by (cases f)
  have i: "indep src q" "indep (bd @ [name]) q" using Cons.prems f by simp_all
  have r: "\<forall>f \<in> set files. indep (fst f) q \<and> indep (bd @ [fst (snd f)]) q"
    using Cons.prems by simp
  show ?case
  proof (cases "fs_stat (disk s) src")
    case (Inl e)
    then show ?thesis using Cons.IH[OF r] f by (simp add: Let_def)
  next
    case st: (Inr n)
    show ?thesis
    proof (cases "fs_rename src (bd @ [name]) (disk s)")
      case (Inl e)
      then show ?thesis using Cons.IH[OF r] f st by (simp add: Let_def)
    next
      case (Inr d)
      from rename_frame[OF Inr i] show ?thesis using Cons.IH[OF r] f st Inr by (simp add: Let_def)
    qed
  qed
qed

lemma backupFiles_keeps_dir:
  assumes "\<forall>f \<in> set files. \<not> prefix (fst f) q \<and> \<not> prefix (bd @ [fst (snd f)]) q"
    and "is_dir_at (disk s) q"
  shows "is_dir_at (disk (snd (backupFiles bd files ops s))) q"
  using assms
proof (induction files arbitrary: ops s)
  case Nil
  then show ?case by simp
next
  case (Cons f files)
  obtain src name req where f: "f = (src, name, req)" by (cases f)
  have i: "\<not> prefix src q" "\<not> prefix (bd @ [name]) q" using Cons.prems f by simp_all
  have r: "\<forall>f \<in> set files. \<not> prefix (fst f) q \<and> \<not> prefix (bd @ [fst (snd f)]) q"
    using Cons.prems by simp
  show ?case
  proof (cases "fs_stat (disk s) src")
    case (Inl e)
    then show ?thesis using Cons.IH[OF r] Cons.prems(2) f by (simp add: Let_def)
  next
    case st: (Inr n)
    show ?thesis
    proof (cases "fs_rename src (bd @ [name]) (disk s)")
      case (Inl e)
      then show ?thesis using Cons.IH[OF r] Cons.prems(2) f st by (simp add: Let_def)
    next
      case (Inr d)
      from rename_keeps_dir[OF Inr Cons.prems(2) i] show ?thesis
        using Cons.IH[OF r] f st Inr by (simp add: Let_def)
    qed
  qed
qed

lemma backupFiles_sameObject: "sameObject s (snd (backupFiles bd files ops s))"
proof (induction files arbitrary: ops s)
  case Nil
  then show ?case by simp
next
  case (Cons f files)
  obtain src name req where f: "f = (src, name, req)" by (cases f)
  have skip: "sameObject s (snd (backupFiles bd files ops'
      (console_error (''[Storage] Optional file '' @ name @ '' not found, skipping'') s)))" for ops'
    by (rule sameObject_trans[OF _ Cons.IH]) simp
  have move: "sameObject s (snd (backupFiles bd files ops'
      (console_error (''[Storage] Backed up: '' @ name) (s\<lparr>disk := d\<rparr>))))" for ops' d
    by (rule sameObject_trans[OF _ Cons.IH]) (simp add: sameObject_step)
  show ?case
  proof (cases "fs_stat (disk s) src")
    case (Inl e)
    then show ?thesis using f skip by (simp add: Let_def)
  next
    case st: (Inr n)
    show ?thesis
      using f st skip move by (cases "fs_rename src (bd @ [name]) (disk s)") (simp_all add: Let_def)
  qed
qed



lemma backupFiles_ops:
  "backupFiles bd files ops s = (Inr ops', s') \<Longrightarrow>
    \<exists>extra. ops' = ops @ extra \<and> set extra \<subseteq> (\<lambda>f. (fst f, bd @ [fst (snd f)])) ` set files"
proof (induction files arbitrary: ops s)
  case Nil
  then show ?case by simp
next
  case (Cons f files)
  obtain src name req where f: "f = (src, name, req)" by (cases f)
  show ?case
  proof (cases "case fs_stat (disk s) src of Inl e \<Rightarrow> Inl e | Inr n \<Rightarrow> fs_rename src (bd @ [name]) (disk s)")
    case (Inl e)
    with Cons.prems f have "backupFiles bd files ops
        (console_error (''[Storage] Optional file '' @ name @ '' not found, skipping'') s) = (Inr ops', s')"
      by (simp add: Let_def split: if_splits)
    from Cons.IH[OF this] show ?thesis by auto
  next
    case (Inr d)
    with Cons.prems f have "backupFiles bd files (ops @ [(src, bd @ [name])])
        (console_error (''[Storage] Backed up: '' @ name) (s\<lparr>disk := d\<rparr>)) = (Inr ops', s')"
      by (simp add: Let_def)
    from Cons.IH[OF this] obtain extra where
      "ops' = (ops @ [(src, bd @ [name])]) @ extra"
      "set extra \<subseteq> (\<lambda>f. (fst f, bd @ [fst (snd f)])) ` set files" by blast
    then have "ops' = ops @ ((src, bd @ [name]) # extra)
        \<and> set ((src, bd @ [name]) # extra) \<subseteq> (\<lambda>f. (fst f, bd @ [fst (snd f)])) ` set (f # files)"
      using f by auto
    then show ?thesis by blast
  qed
qed

subsubsection \<open>The copying loop\<close>

lemma copyFiles_Inr:
  assumes "copyFiles m all ops s = (Inr u, s')"
  shows "sameObject s s'
    \<and> (\<forall>q. indep m q \<longrightarrow> lookup (disk s') q = lookup (disk s) q)
    \<and> (''[Storage] Rolling back migration...'' \<in> set (console s'))
        = (''[Storage] Rolling back migration...'' \<in> set (console s))"
  using assms
proof (induction ops arbitrary: s)
  case Nil
  then show ?case by simp
next
  case (Cons op ops)
  obtain a b where op: "op = (a, b)" by (cases op)
  from Cons.prems op obtain d where
    c: "fs_copyFile b (m @ [last b]) (disk s) = Inr d"
    and r: "copyFiles m all ops
        (console_error (''[Storage] Copied: '' @ last b @ '' to main plan'') (s\<lparr>disk := d\<rparr>)) = (Inr u, s')"
    by (auto simp: Let_def split: sum.splits)
  let ?s1 = "console_error (''[Storage] Copied: '' @ last b @ '' to main plan'') (s\<lparr>disk := d\<rparr>)"
  note ih = Cons.IH[OF r]
  have 1: "sameObject s s'"
  proof -
    have "sameObject s ?s1" by (rule sameObject_step) simp
    moreover have "sameObject ?s1 s'" using ih by blast
    ultimately show ?thesis by (rule sameObject_trans)
  qed
  have 2: "\<forall>q. indep m q \<longrightarrow> lookup (disk s') q = lookup (disk s) q"
    using ih copyFile_frame[OF c] by (simp add: indep_snoc)
  have 3: "(''[Storage] Rolling back migration...'' \<in> set (console s'))
        = (''[Storage] Rolling back migration...'' \<in> set (console s))"
    using ih by simp
  from 1 2 3 show ?case by simp
qed

lemma copyFiles_Inl:
  assumes "copyFiles m all ops s = (Inl c, s')"
  shows "\<exists>e sk. c = CopyToMain e \<and> s' = rollbackMigration all m sk \<and> sameObject s sk
    \<and> (\<forall>q. indep m q \<longrightarrow> lookup (disk sk) q = lookup (disk s) q)
    \<and> (\<forall>q. is_dir_at (disk s) q \<longrightarrow> (\<forall>x. \<not> prefix (m @ [x]) q) \<longrightarrow> is_dir_at (disk sk) q)"
  using assms
proof (induction ops arbitrary: s)
  case Nil
  then show ?case by simp
next
  case (Cons op ops)
  obtain a b where op: "op = (a, b)" by (cases op)
  show ?case
  proof (cases "fs_copyFile b (m @ [last b]) (disk s)")
    case (Inl e)
    let ?sk = "console_error (''[Storage] Failed to copy '' @ last b @ '', attempting rollback...'') s"
    from Inl Cons.prems op have "c = CopyToMain e" "s' = rollbackMigration all m ?sk"
      by (simp_all add: Let_def)
    moreover have "sameObject s ?sk" by simp
    moreover have "\<forall>q. indep m q \<longrightarrow> lookup (disk ?sk) q = lookup (disk s) q" by simp
    moreover have "\<forall>q. is_dir_at (disk s) q \<longrightarrow> (\<forall>x. \<not> prefix (m @ [x]) q) \<longrightarrow> is_dir_at (disk ?sk) q"
      by simp
    ultimately show ?thesis by blast
  next
    case (Inr d)
    let ?s1 = "console_error (''[Storage] Copied: '' @ last b @ '' to main plan'') (s\<lparr>disk := d\<rparr>)"
    from Inr Cons.prems op have r: "copyFiles m all ops ?s1 = (Inl c, s')"
      by (simp add: Let_def)
    from Cons.IH[OF r] obtain e sk where
      k: "c = CopyToMain e" "s' = rollbackMigration all m sk" "sameObject ?s1 sk"
      "\<forall>q. indep m q \<longrightarrow> lookup (disk sk) q = lookup (disk ?s1) q"
      "\<forall>q. is_dir_at (disk ?s1) q \<longrightarrow> (\<forall>x. \<not> prefix (m @ [x]) q) \<longrightarrow> is_dir_at (disk sk) q"
      by blast
    have 1: "sameObject s sk"
    proof -
      have "sameObject s ?s1" by (rule sameObject_step) simp
      then show ?thesis using k(3) by (rule sameObject_trans)
    qed
    have 2: "\<forall>q. indep m q \<longrightarrow> lookup (disk sk) q = lookup (disk s) q"
      using k(4) copyFile_frame[OF Inr] by (simp add: indep_snoc)
    have 3: "\<forall>q. is_dir_at (disk s) q \<longrightarrow> (\<forall>x. \<not> prefix (m @ [x]) q) \<longrightarrow> is_dir_at (disk sk) q"
      using k(5) copyFile_keeps_dir[OF Inr] by simp
    from k(1,2) 1 2 3 show ?thesis by blast
  qed
qed

subsubsection \<open>The five ways through \<^verbatim>\<open>migrateV1ToV2\<close>\<close>

lemma migrate_unfold:
  "migrateV1ToV2 s =
    (case fs_mkdir (baseStorageDir s @ [''v1-backup'']) (disk s) of
       Inl e \<Rightarrow> migrationFailed (DirCreation e)
                 (console_error ''[Storage] Migrating V1.0 data to V2.0 format...'' s)
     | Inr d1 \<Rightarrow>
        (case fs_mkdir (baseStorageDir s @ [''main'']) d1 of
           Inl e \<Rightarrow> migrationFailed (DirCreation e)
                     ((console_error ''[Storage] Migrating V1.0 data to V2.0 format...'' s)\<lparr>disk := d1\<rparr>)
         | Inr d2 \<Rightarrow>
            (case backupFiles (baseStorageDir s @ [''v1-backup''])
                    [(baseStorageDir s @ [''data.json''], ''data.json'', True),
                     (baseStorageDir s @ [''plan.md''], ''plan.md'', False),
                     (baseStorageDir s @ [''tasks.md''], ''tasks.md'', False)] []
                    (console_error ''[Storage] Step 1: Backing up original files...''
                      ((console_error ''[Storage] Migrating V1.0 data to V2.0 format...'' s)\<lparr>disk := d2\<rparr>)) of
               (Inl c, s3) \<Rightarrow> migrationFailed c s3
             | (Inr ops, s3) \<Rightarrow>
                (case copyFiles (baseStorageDir s @ [''main'']) ops ops
                        (console_error (''[Storage] Step 2: Copying files to '' @ [CHR 0x27] @ ''main''
                              @ [CHR 0x27] @ '' plan directory...'') s3) of
                   (Inl c, s4) \<Rightarrow> migrationFailed c s4
                 | (Inr u, s4) \<Rightarrow>
                    (Inr (),
                     console_error (''[Storage] V1.0 backup saved to: ''
                         @ path_text (baseStorageDir s @ [''v1-backup'']))
                       (console_error (''[Storage] V1.0 data successfully migrated to '' @ [CHR 0x27]
                             @ ''main'' @ [CHR 0x27] @ '' plan'') s4))))))"
  unfolding migrateV1ToV2_def Let_def console_error_simps by (rule refl)

lemma migrationFailed_simps:
  "fst (migrationFailed c s) = Inl (MigrationFailed c)"
  "disk (snd (migrationFailed c s)) = disk s"
  "sameObject s (snd (migrationFailed c s))"
  "(''[Storage] Rolling back migration...'' \<in> set (console (snd (migrationFailed c s))))
    = (''[Storage] Rolling back migration...'' \<in> set (console s))"
  by (cases c; simp add: migrationFailed_def cause_message_def)+

lemma migrate_cases [consumes 1, case_names backupDir mainDir backup copy ok]:
  assumes mig: "migrateV1ToV2 s = (r, s')"
  obtains e where "fs_mkdir (baseStorageDir s @ [''v1-backup'']) (disk s) = Inl e"
      "(r, s') = migrationFailed (DirCreation e)
          (console_error ''[Storage] Migrating V1.0 data to V2.0 format...'' s)"
  | d1 e where "fs_mkdir (baseStorageDir s @ [''v1-backup'']) (disk s) = Inr d1"
      "fs_mkdir (baseStorageDir s @ [''main'']) d1 = Inl e"
      "(r, s') = migrationFailed (DirCreation e)
          ((console_error ''[Storage] Migrating V1.0 data to V2.0 format...'' s)\<lparr>disk := d1\<rparr>)"
  | d1 d2 c s3 where "fs_mkdir (baseStorageDir s @ [''v1-backup'']) (disk s) = Inr d1"
      "fs_mkdir (baseStorageDir s @ [''main'']) d1 = Inr d2"
      "backupFiles (baseStorageDir s @ [''v1-backup''])
          [(baseStorageDir s @ [''data.json''], ''data.json'', True),
           (baseStorageDir s @ [''plan.md''], ''plan.md'', False),
           (baseStorageDir s @ [''tasks.md''], ''tasks.md'', False)] []
          (console_error ''[Storage] Step 1: Backing up original files...''
            ((console_error ''[Storage] Migrating V1.0 data to V2.0 format...'' s)\<lparr>disk := d2\<rparr>))
        = (Inl c, s3)"
      "(r, s') = migrationFailed c s3"
  | d1 d2 ops s3 l c s4 where "fs_mkdir (baseStorageDir s @ [''v1-backup'']) (disk s) = Inr d1"
      "fs_mkdir (baseStorageDir s @ [''main'']) d1 = Inr d2"
      "backupFiles (baseStorageDir s @ [''v1-backup''])
          [(baseStorageDir s @ [''data.json''], ''data.json'', True),
           (baseStorageDir s @ [''plan.md''], ''plan.md'', False),
           (baseStorageDir s @ [''tasks.md''], ''tasks.md'', False)] []
          (console_error ''[Storage] Step 1: Backing up original files...''
            ((console_error ''[Storage] Migrating V1.0 data to V2.0 format...'' s)\<lparr>disk := d2\<rparr>))
        = (Inr ops, s3)"
      "l \<noteq> ''[Storage] Rolling back migration...''"
      "copyFiles (baseStorageDir s @ [''main'']) ops ops (console_error l s3) = (Inl c, s4)"
      "(r, s') = migrationFailed c s4"
  | d1 d2 ops s3 l u s4 l1 l2 where "fs_mkdir (baseStorageDir s @ [''v1-backup'']) (disk s) = Inr d1"
      "fs_mkdir (baseStorageDir s @ [''main'']) d1 = Inr d2"
      "backupFiles (baseStorageDir s @ [''v1-backup''])
          [(baseStorageDir s @ [''data.json''], ''data.json'', True),
           (baseStorageDir s @ [''plan.md''], ''plan.md'', False),
           (baseStorageDir s @ [''tasks.md''], ''tasks.md'', False)] []
          (console_error ''[Storage] Step 1: Backing up original files...''
            ((console_error ''[Storage] Migrating V1.0 data to V2.0 format...'' s)\<lparr>disk := d2\<rparr>))
        = (Inr ops, s3)"
      "l \<noteq> ''[Storage] Rolling back migration...''"
      "copyFiles (baseStorageDir s @ [''main'']) ops ops (console_error l s3) = (Inr u, s4)"
      "l1 \<noteq> ''[Storage] Rolling back migration...''"
      "l2 \<noteq> ''[Storage] Rolling back migration...''"
      "r = Inr ()" "s' = console_error l2 (console_error l1 s4)"
proof (cases "fs_mkdir (baseStorageDir s @ [''v1-backup'']) (disk s)")
  case (Inl e)
  have "(r, s') = migrationFailed (DirCreation e)
          (console_error ''[Storage] Migrating V1.0 data to V2.0 format...'' s)"
    using mig unfolding migrate_unfold Inl by simp
  with Inl show ?thesis by (rule that(1))
next
  case d1: (Inr d1)
  show ?thesis
  proof (cases "fs_mkdir (baseStorageDir s @ [''main'']) d1")
    case (Inl e)
    have "(r, s') = migrationFailed (DirCreation e)
          ((console_error ''[Storage] Migrating V1.0 data to V2.0 format...'' s)\<lparr>disk := d1\<rparr>)"
      using mig unfolding migrate_unfold d1 by (simp add: Inl)
    with d1 Inl show ?thesis by (rule that(2))
  next
    case d2: (Inr d2)
    obtain rb s3 where b: "backupFiles (baseStorageDir s @ [''v1-backup''])
          [(baseStorageDir s @ [''data.json''], ''data.json'', True),
           (baseStorageDir s @ [''plan.md''], ''plan.md'', False),
           (baseStorageDir s @ [''tasks.md''], ''tasks.md'', False)] []
          (console_error ''[Storage] Step 1: Backing up original files...''
            ((console_error ''[Storage] Migrating V1.0 data to V2.0 format...'' s)\<lparr>disk := d2\<rparr>))
        = (rb, s3)"
      using prod.exhaust by blast
    have mig': "(r, s') = (case (rb, s3) of
               (Inl c, s3) \<Rightarrow> migrationFailed c s3
             | (Inr ops, s3) \<Rightarrow>
                (case copyFiles (baseStorageDir s @ [''main'']) ops ops
                        (console_error (''[Storage] Step 2: Copying files to '' @ [CHR 0x27] @ ''main''
                              @ [CHR 0x27] @ '' plan directory...'') s3) of
                   (Inl c, s4) \<Rightarrow> migrationFailed c s4
                 | (Inr u, s4) \<Rightarrow>
                    (Inr (),
                     console_error (''[Storage] V1.0 backup saved to: ''
                         @ path_text (baseStorageDir s @ [''v1-backup'']))
                       (console_error (''[Storage] V1.0 data successfully migrated to '' @ [CHR 0x27]
                             @ ''main'' @ [CHR 0x27] @ '' plan'') s4))))"
      using mig unfolding migrate_unfold d1 b[symmetric] by (simp add: d2)
    show ?thesis
    proof (cases rb)
      case (Inl c)
      then have "(r, s') = migrationFailed c s3" using mig' by simp
      with d1 d2 b[unfolded Inl] show ?thesis by (rule that(3))
    next
      case (Inr ops)
      define l where "l = ''[Storage] Step 2: Copying files to '' @ [CHR 0x27] @ ''main''
                              @ [CHR 0x27] @ '' plan directory...''"
      have l: "l \<noteq> ''[Storage] Rolling back migration...''" by (simp add: l_def)
      obtain rc s4 where c: "copyFiles (baseStorageDir s @ [''main'']) ops ops (console_error l s3) = (rc, s4)"
        using prod.exhaust by blast
      have mig'': "(r, s') = (case (rc, s4) of
                   (Inl c, s4) \<Rightarrow> migrationFailed c s4
                 | (Inr u, s4) \<Rightarrow>
                    (Inr (),
                     console_error (''[Storage] V1.0 backup saved to: ''
                         @ path_text (baseStorageDir s @ [''v1-backup'']))
                       (console_error (''[Storage] V1.0 data successfully migrated to '' @ [CHR 0x27]
                             @ ''main'' @ [CHR 0x27] @ '' plan'') s4)))"
        using mig' unfolding Inr c[symmetric] l_def by simp
      show ?thesis
      proof (cases rc)
        case (Inl cc)
        then have "(r, s') = migrationFailed cc s4" using mig'' by simp
        with d1 d2 b[unfolded Inr] l c[unfolded Inl] show ?thesis by (rule that(4))
      next
        case u: (Inr u)
        define l1 where "l1 = ''[Storage] V1.0 data successfully migrated to '' @ [CHR 0x27]
                             @ ''main'' @ [CHR 0x27] @ '' plan''"
        define l2 where "l2 = ''[Storage] V1.0 backup saved to: ''
                         @ path_text (baseStorageDir s @ [''v1-backup''])"
        have l12: "l1 \<noteq> ''[Storage] Rolling back migration...''"
          "l2 \<noteq> ''[Storage] Rolling back migration...''" by (simp_all add: l1_def l2_def)
        have "r = Inr ()" "s' = console_error l2 (console_error l1 s4)"
          using mig'' u by (simp_all add: l1_def l2_def)
        with d1 d2 b[unfolded Inr] l c[unfolded u] l12 show ?thesis by (rule that(5))
      qed
    qed
  qed
qed

lemma migrationFailed_eq:
  assumes "(r, s') = migrationFailed c t"
  shows "r = Inl (MigrationFailed c)" and "disk s' = disk t" and "sameObject t s'"
    and "(''[Storage] Rolling back migration...'' \<in> set (console s'))
      = (''[Storage] Rolling back migration...'' \<in> set (console t))"
  using migrationFailed_simps[where c=c and s=t] assms[symmetric] by simp_all

lemma sameObject_snd: "f = (r, s') \<Longrightarrow> sameObject s (snd f) \<Longrightarrow> sameObject s s'"
  by simp

lemma migrate_sameObject:
  assumes "migrateV1ToV2 s = (r, s')"
  shows "sameObject s s'"
  using assms
proof (cases rule: migrate_cases)
  case (backupDir e)
  from migrationFailed_eq(3)[OF backupDir(2)] show ?thesis
    by (rule sameObject_trans[rotated]) simp
next
  case (mainDir d1 e)
  from migrationFailed_eq(3)[OF mainDir(3)] show ?thesis
    by (rule sameObject_trans[rotated]) (simp add: sameObject_def console_error_def)
next
  case (backup d1 d2 c s3)
  let ?s2 = "console_error ''[Storage] Step 1: Backing up original files...''
            ((console_error ''[Storage] Migrating V1.0 data to V2.0 format...'' s)\<lparr>disk := d2\<rparr>)"
  have a: "sameObject s ?s2" by (simp add: sameObject_def console_error_def)
  have b: "sameObject ?s2 s3" using backupFiles_sameObject[of ?s2] backup(3) by (metis snd_conv)
  from sameObject_trans[OF sameObject_trans[OF a b] migrationFailed_eq(3)[OF backup(4)]]
  show ?thesis .
next
  case (copy d1 d2 ops s3 l c s4)
  let ?s2 = "console_error ''[Storage] Step 1: Backing up original files...''
            ((console_error ''[Storage] Migrating V1.0 data to V2.0 format...'' s)\<lparr>disk := d2\<rparr>)"
  have a: "sameObject s ?s2" by (simp add: sameObject_def console_error_def)
  have b: "sameObject ?s2 s3" using backupFiles_sameObject[of ?s2] copy(3) by (metis snd_conv)
  from copyFiles_Inl[OF copy(5)] obtain sk where
    k: "s4 = rollbackMigration ops (baseStorageDir s @ [''main'']) sk" "sameObject (console_error l s3) sk"
    by blast
  have "sameObject s3 sk" by (rule sameObject_trans[OF _ k(2)]) simp
  then have "sameObject s3 s4"
    unfolding k(1) by (rule sameObject_trans) (rule rollbackMigration_sameObject)
  from sameObject_trans[OF sameObject_trans[OF sameObject_trans[OF a b] this]
      migrationFailed_eq(3)[OF copy(6)]]
  show ?thesis .
next
  case (ok d1 d2 ops s3 l u s4 l1 l2)
  let ?s2 = "console_error ''[Storage] Step 1: Backing up original files...''
            ((console_error ''[Storage] Migrating V1.0 data to V2.0 format...'' s)\<lparr>disk := d2\<rparr>)"
  have a: "sameObject s ?s2" by (simp add: sameObject_def console_error_def)
  have b: "sameObject ?s2 s3" using backupFiles_sameObject[of ?s2] ok(3) by (metis snd_conv)
  from copyFiles_Inr[OF ok(5)] have "sameObject (console_error l s3) s4" by blast
  then have "sameObject s3 s4" by (rule sameObject_trans[rotated]) simp
  then have "sameObject s3 s'"
    unfolding ok(9) by (intro sameObject_log)
  from sameObject_trans[OF sameObject_trans[OF a b] this] show ?thesis .
qed


subsubsection \<open>The three legacy files\<close>

lemma backupFiles_legacy:
  assumes b: "backupFiles (base @ [''v1-backup''])
      [(base @ [''data.json''], ''data.json'', True), (base @ [''plan.md''], ''plan.md'', False),
       (base @ [''tasks.md''], ''tasks.md'', False)] [] s2 = (Inr ops, s3)"
  shows "\<exists>n extra. lookup (disk s2) (base @ [''data.json'']) = Some n
     \<and> ops = (base @ [''data.json''], base @ [''v1-backup'', ''data.json'']) # extra
     \<and> set extra \<subseteq> {(base @ [''plan.md''], base @ [''v1-backup'', ''plan.md'']),
                       (base @ [''tasks.md''], base @ [''v1-backup'', ''tasks.md''])}
     \<and> lookup (disk s3) (base @ [''data.json'']) = None
     \<and> lookup (disk s3) (base @ [''v1-backup'', ''data.json'']) = Some n
     \<and> is_dir_at (disk s3) base
     \<and> lookup (disk s3) (base @ [''main'']) = lookup (disk s2) (base @ [''main''])"
proof -
  let ?src = "base @ [''data.json'']"
  let ?dst = "base @ [''v1-backup'', ''data.json'']"
  let ?rest = "[(base @ [''plan.md''], ''plan.md'', False), (base @ [''tasks.md''], ''tasks.md'', False)]"
  from b obtain d where
    rn: "fs_rename ?src ?dst (disk s2) = Inr d"
    and rest: "backupFiles (base @ [''v1-backup'']) ?rest [(?src, ?dst)]
        (console_error ''[Storage] Backed up: data.json'' (s2\<lparr>disk := d\<rparr>)) = (Inr ops, s3)"
    by (auto simp: Let_def split: sum.splits)
  have i: "indep ?src ?dst" by (simp add: indep_def)
  have ne: "?src \<noteq> ?dst" by simp
  from rename_Inr(1)[OF rn ne] obtain n where n: "lookup (disk s2) ?src = Some n" by blast
  note mv = rename_moves[OF rn i]
  from rename_Inr(4)[OF rn ne] have "is_dir_at (disk s2) (base @ [''v1-backup''])" by (simp add: butlast_append)
  then have "is_dir_at (disk s2) base" by (rule is_dir_at_take)
  then have db: "is_dir_at d base" using rename_keeps_dir[OF rn] by simp
  from backupFiles_ops[OF rest] obtain extra where
    ex: "ops = [(?src, ?dst)] @ extra"
      "set extra \<subseteq> (\<lambda>f. (fst f, (base @ [''v1-backup'']) @ [fst (snd f)])) ` set ?rest" by blast
  have s3: "s3 = snd (backupFiles (base @ [''v1-backup'']) ?rest [(?src, ?dst)]
        (console_error ''[Storage] Backed up: data.json'' (s2\<lparr>disk := d\<rparr>)))"
    using rest by simp
  have f1: "lookup (disk s3) ?src = None"
    unfolding s3 using mv(1) by (subst backupFiles_frame) (simp_all add: indep_def)
  have f2: "lookup (disk s3) ?dst = Some n"
    unfolding s3 using mv(2) n by (subst backupFiles_frame) (simp_all add: indep_def)
  have f3: "is_dir_at (disk s3) base"
    unfolding s3 using db by (intro backupFiles_keeps_dir) simp_all
  have "lookup d (base @ [''main'']) = lookup (disk s2) (base @ [''main''])"
    using rename_frame[OF rn] by (simp add: indep_def)
  then have f4: "lookup (disk s3) (base @ [''main'']) = lookup (disk s2) (base @ [''main''])"
    unfolding s3 by (subst backupFiles_frame) (simp_all add: indep_def)
  from n ex f1 f2 f3 f4 show ?thesis by auto
qed




subsubsection \<open>The disk after a migration\<close>

lemma migrate_Inr_legacy_gone:
  assumes "migrateV1ToV2 s = (Inr u, s')"
  shows "lookup (disk s') (baseStorageDir s @ [''data.json'']) = None"
  using assms
proof (cases rule: migrate_cases)
  case (backupDir e)
  then show ?thesis using migrationFailed_eq(1) by blast
next
  case (mainDir d1 e)
  then show ?thesis using migrationFailed_eq(1) by blast
next
  case (backup d1 d2 c s3)
  then show ?thesis using migrationFailed_eq(1) by blast
next
  case (copy d1 d2 ops s3 l c s4)
  then show ?thesis using migrationFailed_eq(1) by blast
next
  case (ok d1 d2 ops s3 l v s4 l1 l2)
  from backupFiles_legacy[OF ok(3)]
  have "lookup (disk s3) (baseStorageDir s @ [''data.json'']) = None" by blast
  moreover from copyFiles_Inr[OF ok(5)]
  have "lookup (disk s4) (baseStorageDir s @ [''data.json''])
      = lookup (disk (console_error l s3)) (baseStorageDir s @ [''data.json''])"
    by (simp add: indep_def)
  ultimately show ?thesis using ok(9) by simp
qed


subsubsection \<open>The claims on the migration\<close>

lemma isV1Project_lookup:
  "isV1Project s = is_file_at (disk s) (baseStorageDir s @ [''data.json''])"
  by (simp add: isV1Project_def is_file_at_def fs_stat_def split: option.splits node.splits)

text \<open>
  Claim C4.  After a migration that succeeds the legacy record file is gone from the
  namespace root: \<^verbatim>\<open>isV1Project\<close> is false, so the step
  \<^verbatim>\<open>if (await this.isV1Project()) await this.migrateV1ToV2()\<close> of a second run does
  nothing, and leaves the disk, the \<^verbatim>\<open>main\<close> directory included, as it is.
\<close>

theorem migration_runs_once:
  assumes "migrateV1ToV2 s = (Inr u, s1)"
  shows "\<not> isV1Project s1
    \<and> (if isV1Project s1 then migrateV1ToV2 s1 else (Inr (), s1)) = (Inr (), s1)"
proof -
  have "baseStorageDir s1 = baseStorageDir s"
    using migrate_sameObject[OF assms] by (rule sameObject_fields)
  then have "\<not> isV1Project s1"
    using migrate_Inr_legacy_gone[OF assms] by (simp add: isV1Project_lookup is_file_at_def)
  then show ?thesis by simp
qed

theorem migration_runs_once_witness:
  "isV1Project legacyStorage
    \<and> fst (migrateV1ToV2 legacyStorage) = Inr ()
    \<and> \<not> isV1Project (snd (migrateV1ToV2 legacyStorage))
    \<and> (if isV1Project (snd (migrateV1ToV2 legacyStorage))
        then migrateV1ToV2 (snd (migrateV1ToV2 legacyStorage))
        else (Inr (), snd (migrateV1ToV2 legacyStorage)))
      = (Inr (), snd (migrateV1ToV2 legacyStorage))
    \<and> listPlans (snd (migrateV1ToV2 legacyStorage)) = [''main'']"
proof -
  have 1: "isV1Project legacyStorage" by code_simp
  have 2: "fst (migrateV1ToV2 legacyStorage) = Inr ()" by code_simp
  have 3: "listPlans (snd (migrateV1ToV2 legacyStorage)) = [''main'']" by code_simp
  from 2 have "migrateV1ToV2 legacyStorage = (Inr (), snd (migrateV1ToV2 legacyStorage))"
    by (metis prod.collapse)
  from migration_runs_once[OF this] 1 2 3 show ?thesis by simp
qed




subsection \<open>What a successful \<^verbatim>\<open>initialize\<close> and \<^verbatim>\<open>save\<close> leave behind\<close>

text \<open>
  The round trip and the switch of plans are stated for an object whose paths are up to
  date, with no legacy record file at the namespace root and a record file that decodes to
  the record in memory.  Every \<^verbatim>\<open>initialize\<close> that succeeds ends in such a state, every
  \<^verbatim>\<open>save\<close> that succeeds keeps it, and an \<^verbatim>\<open>initialize\<close> that fails leaves the empty
  record in memory.
\<close>

lemma sameObject_eq: "sameObject s s' \<Longrightarrow> s' = s\<lparr>disk := disk s', console := console s'\<rparr>"
proof -
  assume "sameObject s s'"
  then have e: "s'\<lparr>disk := disk s, console := console s\<rparr> = s" by (simp add: sameObject_def)
  have "s' = (s'\<lparr>disk := disk s, console := console s\<rparr>)\<lparr>disk := disk s', console := console s'\<rparr>"
    by simp
  then show ?thesis by (simp only: e)
qed

lemma updatePaths_disk_console:
  "updatePaths (s\<lparr>disk := d, console := c\<rparr>) = (updatePaths s)\<lparr>disk := d, console := c\<rparr>"
  by (simp add: updatePaths_def Let_def)

lemma sameObject_paths: "sameObject s s' \<Longrightarrow> updatePaths s = s \<Longrightarrow> updatePaths s' = s'"
  using sameObject_eq[of s s'] updatePaths_disk_console[where s=s and d="disk s'" and c="console s'"]
  by simp

lemma initialize_loaded:
  assumes P: "updatePaths s = s" and L: "\<not> isV1Project s"
    and K: "is_dir_at (disk s) (cursorDir s)" and I: "initialize s = (Inr u, s1)"
  shows "\<exists>j. fs_readFile (disk s1) (storagePath s1) = Inr (JsonText j) \<and> fromJSON j = Some (data s1)"
proof -
  note i = I[unfolded initialize_no_legacy[OF L K]]
  show ?thesis
  proof (cases "\<exists>j. fs_readFile (disk s) (storagePath s) = Inr (JsonText j)")
    case True
    then obtain j where j: "fs_readFile (disk s) (storagePath s) = Inr (JsonText j)" by blast
    from i j obtain r where r: "fromJSON j = Some r" "s1 = s\<lparr>data := r\<rparr>"
      by (auto split: option.splits)
    then show ?thesis using j by simp
  next
    case False
    then have "save (s\<lparr>data := emptyData\<rparr>) = (Inr u, s1)"
      using i by (auto split: sum.splits content.splits)
    from save_Inr[OF this] P obtain d where
      "s1 = s\<lparr>data := emptyData, disk := d\<rparr>"
      "lookup d (storagePath s) = Some (File (JsonText (toJSON emptyData)))"
      by (auto simp: updatePaths_data)
    then have "fs_readFile (disk s1) (storagePath s1) = Inr (JsonText (toJSON emptyData))
        \<and> fromJSON (toJSON emptyData) = Some (data s1)"
      by (simp add: fs_readFile_def fromJSON_toJSON)
    then show ?thesis by blast
  qed
qed

lemma initialize_Inl_data:
  assumes "initialize s0 = (Inl e, s1)"
  shows "data s1 = emptyData"
proof -
  define s where "s = s0\<lparr>data := emptyData\<rparr>"
  obtain r sg where g: "(if isV1Project s then migrateV1ToV2 s else (Inr (), s)) = (r, sg)"
    using prod.exhaust by blast
  have "sameObject s sg"
    using g migrate_sameObject[of s r sg] by (auto split: if_splits)
  then have dg: "data sg = emptyData" using sameObject_fields(1)[of s sg] by (simp add: s_def)
  have i: "(case (r, sg) of
       (Inl e, s1) \<Rightarrow> (Inl e, s1)
     | (Inr u, s1) \<Rightarrow>
        (case fs_mkdir (cursorDir s1) (disk s1) of
           Inl e \<Rightarrow> (Inl (IOError e), s1)
         | Inr d \<Rightarrow>
            (let s2 = s1\<lparr>disk := d\<rparr> in
             case fs_readFile (disk s2) (storagePath s2) of
               Inr (JsonText j) \<Rightarrow>
                 (case fromJSON j of
                    Some r \<Rightarrow> (Inr (), s2\<lparr>data := r\<rparr>)
                  | None \<Rightarrow> (Inl (IllTypedRecord j), s2))
             | _ \<Rightarrow> save s2))) = (Inl e, s1)"
    using assms unfolding initialize_def Let_def g[unfolded s_def] by simp
  show ?thesis
  proof (cases r)
    case (Inl e')
    then show ?thesis using i dg by simp
  next
    case (Inr v)
    show ?thesis
    proof (cases "fs_mkdir (cursorDir sg) (disk sg)")
      case (Inl io)
      then show ?thesis using i Inr dg by simp
    next
      case d: (Inr d)
      have "data s1 = data (sg\<lparr>disk := d\<rparr>)"
        using i Inr d data_save[of "sg\<lparr>disk := d\<rparr>"]
        by (auto simp: Let_def split: sum.splits content.splits option.splits)
      then show ?thesis using dg by simp
    qed
  qed
qed

lemma updatePaths_disk: "updatePaths (s\<lparr>disk := d\<rparr>) = (updatePaths s)\<lparr>disk := d\<rparr>"
  by (simp add: updatePaths_def Let_def)

lemma legacy_path_indep:
  assumes "updatePaths s = s"
  shows "indep (cursorDir s) (baseStorageDir s @ [''data.json''])"
  using paths_ok(3)[OF assms] valid_name_not_file(1)[OF paths_ok(1)[OF assms]]
  by (simp add: indep_def)

lemma save_keeps:
  assumes P: "updatePaths s = s" and L: "\<not> isV1Project s" and S: "save s = (Inr u, s1)"
  shows "updatePaths s1 = s1 \<and> \<not> isV1Project s1
    \<and> fs_readFile (disk s1) (storagePath s1) = Inr (JsonText (toJSON (data s1)))"
proof -
  from save_Inr[OF S P] obtain d where
    s1: "s1 = s\<lparr>disk := d\<rparr>"
    and a: "lookup d (storagePath s) = Some (File (JsonText (toJSON (data s))))"
    and f: "\<forall>q. indep (cursorDir s) q \<longrightarrow> lookup d q = lookup (disk s) q" by blast
  have 1: "updatePaths s1 = s1" using P by (simp add: s1 updatePaths_disk)
  have 2: "\<not> isV1Project s1"
    using L f legacy_path_indep[OF P] by (simp add: isV1Project_lookup is_file_at_def s1)
  have 3: "fs_readFile (disk s1) (storagePath s1) = Inr (JsonText (toJSON (data s1)))"
    using a by (simp add: s1 fs_readFile_def)
  from 1 2 3 show ?thesis by simp
qed

lemma initialize_establishes:
  assumes P: "updatePaths s0 = s0" and I: "initialize s0 = (Inr u, s1)"
  shows "updatePaths s1 = s1 \<and> \<not> isV1Project s1
    \<and> (\<exists>j. fs_readFile (disk s1) (storagePath s1) = Inr (JsonText j) \<and> fromJSON j = Some (data s1))"
proof -
  define s where "s = s0\<lparr>data := emptyData\<rparr>"
  have Ps: "updatePaths s = s" using P by (simp add: s_def updatePaths_data)
  obtain r sg where g: "(if isV1Project s then migrateV1ToV2 s else (Inr (), s)) = (r, sg)"
    using prod.exhaust by blast
  have so: "sameObject s sg"
    using g migrate_sameObject[of s r sg] by (auto split: if_splits)
  have Pg: "updatePaths sg = sg" using so Ps by (rule sameObject_paths)
  have dg: "data sg = emptyData" using sameObject_fields(1)[OF so] by (simp add: s_def)
  have i: "(case (r, sg) of
       (Inl e, s1) \<Rightarrow> (Inl e, s1)
     | (Inr u, s1) \<Rightarrow>
        (case fs_mkdir (cursorDir s1) (disk s1) of
           Inl e \<Rightarrow> (Inl (IOError e), s1)
         | Inr d \<Rightarrow>
            (let s2 = s1\<lparr>disk := d\<rparr> in
             case fs_readFile (disk s2) (storagePath s2) of
               Inr (JsonText j) \<Rightarrow>
                 (case fromJSON j of
                    Some r \<Rightarrow> (Inr (), s2\<lparr>data := r\<rparr>)
                  | None \<Rightarrow> (Inl (IllTypedRecord j), s2))
             | _ \<Rightarrow> save s2))) = (Inr u, s1)"
    using I unfolding initialize_def Let_def g[unfolded s_def] by simp
  obtain v where r: "r = Inr v" using i by (cases r) auto
  have Lg: "\<not> isV1Project sg"
  proof (cases "isV1Project s")
    case True
    then have "migrateV1ToV2 s = (Inr v, sg)" using g r by simp
    from migrate_Inr_legacy_gone[OF this] sameObject_fields(2)[OF so]
    show ?thesis by (simp add: isV1Project_lookup is_file_at_def)
  next
    case False
    then show ?thesis using g by simp
  qed
  obtain d where d: "fs_mkdir (cursorDir sg) (disk sg) = Inr d"
    using i r by (cases "fs_mkdir (cursorDir sg) (disk sg)") auto
  define s2 where "s2 = sg\<lparr>disk := d\<rparr>"
  have P2: "updatePaths s2 = s2" using Pg by (simp add: s2_def updatePaths_disk)
  have K2: "is_dir_at (disk s2) (cursorDir s2)" using mkdir_is_dir[OF d] by (simp add: s2_def)
  have L2: "\<not> isV1Project s2"
    using Lg mkdir_frame[OF d legacy_path_indep[OF Pg]]
    by (simp add: isV1Project_lookup is_file_at_def s2_def)
  have e2: "s2\<lparr>data := emptyData\<rparr> = s2" using dg by (simp add: s2_def)
  have I2: "initialize s2 = (Inr u, s1)"
    unfolding initialize_no_legacy[OF L2 K2] e2 unfolding s2_def
    using i r d by (simp add: Let_def)
  have E2: "lookup (disk s2) (cursorDir s2) \<noteq> None"
    using K2 by (auto simp: is_dir_at_def split: option.splits)
  from initialize_effect[OF P2 L2 E2 I2] obtain d' r' where
    s1: "s1 = s2\<lparr>data := r', disk := d'\<rparr>"
    and f: "\<forall>q. indep (cursorDir s2) q \<longrightarrow> lookup d' q = lookup (disk s2) q" by blast
  have 1: "updatePaths s1 = s1" using P2 by (simp add: s1 updatePaths_disk updatePaths_data)
  have 2: "\<not> isV1Project s1"
    using L2 f legacy_path_indep[OF P2] by (simp add: isV1Project_lookup is_file_at_def s1)
  from 1 2 initialize_loaded[OF P2 L2 K2 I2] show ?thesis by simp
qed

end
